theory Spec2Isabelle
  imports Main
begin

section \<open>The outside world of the runner\<close>

text \<open>
  The repository holds three generations of the same bootstrap code in one file:
  \<^item> \<open>apprun.Run(f, appCfg, appName, appVer, lw) int\<close> (lines 31-118), below \<open>Run_v1\<close>;
  \<^item> \<open>runner.New\<close> and \<open>(*Runner).Run() int\<close> (lines 171-321), below \<open>New_v2\<close> and
    \<open>Run_v2\<close>;
  \<^item> \<open>apprun.Run(f, cfg)\<close> (lines 356-401), which leaves through \<open>os.Exit(1)\<close>, below
    \<open>Run_v3\<close>.

  Everything the code does to its surroundings is recorded, in program order, as a list
  of events; what the surroundings answer is read from a \<open>world\<close> record. A goroutine
  started with \<open>go func() {...}()\<close> is one \<open>EvGo\<close> event of the starting path; its
  body is a function of its own, so that no scheduling order is built into the model.
\<close>

datatype error = ErrNotExist | ErrServerClosed | ErrText string | Wrap string error

text \<open>\<open>errors.Is(err, target)\<close>: the chain of wrapped errors is searched for the target.\<close>

fun errors_Is :: "error \<Rightarrow> error \<Rightarrow> bool" where
  "errors_Is (Wrap m e) t = (Wrap m e = t \<or> errors_Is e t)"
| "errors_Is e t = (e = t)"

text \<open>The zerolog levels the code uses, with zerolog's numbering.\<close>

datatype level = DebugLevel | InfoLevel | ErrorLevel

fun levelNum :: "level \<Rightarrow> nat" where
  "levelNum DebugLevel = 0"
| "levelNum InfoLevel = 1"
| "levelNum ErrorLevel = 3"

datatype writer = ConsoleWriter | Stderr | UserWriter nat

datatype field = FStr string string | FErr error

datatype tz = UTC | SystemZone

datatype "context" = Background | WithCancel "context"

datatype task = SignalListener | ServeTask string

datatype event =
    EvSetTimeLocal tz
  | EvLoadFromPath string
  | EvLoadFromEnv string
  | EvLog level "field list" string
  | EvWithCancel
  | EvSignalNotify
  | EvGo task
  | EvCallFactory
  | EvAppRun "context"
  | EvListenAndServe string
  | EvShutdown string "context"
  | EvCtxCancel
  | EvOsExit int

record logger =
  lg_level :: level
  lg_ctx :: "field list"
  lg_out :: "writer list"

text \<open>
  One log call \<open>l.Level().Fields...Msg(msg)\<close>: zerolog drops a record below the logger's
  minimum level; a record that is written carries the logger's bound fields first.
\<close>

definition logMsg :: "logger \<Rightarrow> level \<Rightarrow> field list \<Rightarrow> string \<Rightarrow> event list" where
  "logMsg l lv fs msg =
     (if levelNum (lg_level l) \<le> levelNum lv then [EvLog lv (lg_ctx l @ fs) msg] else [])"

datatype handler = DefaultServeMux | RuntimeMux

record server =
  srv_Addr :: string
  srv_Handler :: handler

text \<open>
  The answers of the surroundings. \<open>getenv\<close> is \<open>os.Getenv\<close> (the empty string for an
  unset variable). \<open>cfgloader.LoadFromPath\<close> and \<open>cfgloader.LoadFromEnv\<close> belong to
  another module; they receive a pointer to the configuration value, so each is a
  function from the value before the call to the error returned and the value after it.
\<close>

record 'c world =
  getenv :: "string \<Rightarrow> string"
  stdoutIsCharDevice :: bool
  loadFromPath :: "string \<Rightarrow> 'c \<Rightarrow> error option \<times> 'c"
  loadFromEnv :: "string \<Rightarrow> 'c \<Rightarrow> error option \<times> 'c"
  listenAndServe :: "server \<Rightarrow> error option"
  shutdown :: "server \<Rightarrow> error option"
  osArgs :: "string list"

text \<open>The package-level variables and \<open>time.Local\<close>.\<close>

record globals =
  time_Local :: tz
  g_appName :: string
  g_appVer :: string

definition isTerminal :: "'c world \<Rightarrow> bool" where
  "isTerminal w = (if stdoutIsCharDevice w then True else False)"

section \<open>Sequencing with early return\<close>

text \<open>
  A block of the function body yields its events and either \<open>Inl code\<close>, when it has
  executed \<open>return code\<close>, or \<open>Inr x\<close>, when control falls through with the value
  \<open>x\<close>.
\<close>

type_synonym 'x block = "event list \<times> (int + 'x)"

definition prepend :: "event list \<Rightarrow> event list \<times> 'r \<Rightarrow> event list \<times> 'r" where
  "prepend t m = (t @ fst m, snd m)"

definition andThen :: "'x block \<Rightarrow> ('x \<Rightarrow> 'y block) \<Rightarrow> 'y block" where
  "andThen m k = (case snd m of Inl c \<Rightarrow> (fst m, Inl c) | Inr x \<Rightarrow> prepend (fst m) (k x))"

text \<open>\<open>defer ctxC()\<close>: the deferred call runs when the function returns, on every path.\<close>

definition deferred :: "event list \<Rightarrow> event list \<times> 'r \<Rightarrow> event list \<times> 'r" where
  "deferred d m = (fst m @ d, snd m)"

definition exitCode :: "int block \<Rightarrow> event list \<times> int" where
  "exitCode m = (fst m, (case snd m of Inl c \<Rightarrow> c | Inr c \<Rightarrow> c))"

section \<open>Configuration resolution, lines 59-84 and 252-277\<close>

text \<open>
  The body of the inner loop (lines 61-68): a load error other than \<open>os.ErrNotExist\<close>
  is logged with the path and returns 1; a missing file is passed over silently; a
  loaded file is reported at debug level.
\<close>

definition loadStep :: "'c world \<Rightarrow> logger \<Rightarrow> string \<Rightarrow> 'c \<Rightarrow> 'c block" where
  "loadStep w l cfgPath c =
     (case loadFromPath w cfgPath c of
        (Some err, c') \<Rightarrow>
          (if \<not> errors_Is err ErrNotExist
           then (EvLoadFromPath cfgPath #
                   logMsg l ErrorLevel [FErr err, FStr ''path'' cfgPath] ''config file load failed'',
                 Inl 1)
           else ([EvLoadFromPath cfgPath], Inr c'))
      | (None, c') \<Rightarrow>
          (EvLoadFromPath cfgPath # logMsg l DebugLevel [FStr ''path'' cfgPath] ''config file loaded'',
           Inr c'))"

fun loadExts :: "'c world \<Rightarrow> logger \<Rightarrow> string \<Rightarrow> string list \<Rightarrow> 'c \<Rightarrow> 'c block" where
  "loadExts w l base [] c = ([], Inr c)"
| "loadExts w l base (ext # exts) c =
     andThen (loadStep w l (base @ ext) c) (loadExts w l base exts)"

fun loadBases :: "'c world \<Rightarrow> logger \<Rightarrow> string list \<Rightarrow> 'c \<Rightarrow> 'c block" where
  "loadBases w l [] c = ([], Inr c)"
| "loadBases w l (base # bases) c =
     andThen (loadExts w l base [''.yaml'', ''.json''] c) (loadBases w l bases)"

text \<open>Lines 72-79: the file named by \<open>APP_CONFIG_PATH\<close>, where every error returns 1.\<close>

definition loadExplicit :: "'c world \<Rightarrow> logger \<Rightarrow> 'c \<Rightarrow> 'c block" where
  "loadExplicit w l c =
     (let cfgPath = getenv w ''APP_CONFIG_PATH'' in
      if cfgPath \<noteq> [] then
        (case loadFromPath w cfgPath c of
           (Some err, c') \<Rightarrow>
             (EvLoadFromPath cfgPath #
                logMsg l ErrorLevel [FErr err, FStr ''path'' cfgPath] ''config file load failed'',
              Inl 1)
         | (None, c') \<Rightarrow>
             (EvLoadFromPath cfgPath # logMsg l DebugLevel [FStr ''path'' cfgPath] ''config file loaded'',
              Inr c'))
      else ([], Inr c))"

text \<open>Lines 81-84: the overlay from the environment, under the prefix \<open>APP\<close>.\<close>

definition loadEnvAPP :: "'c world \<Rightarrow> logger \<Rightarrow> 'c \<Rightarrow> 'c block" where
  "loadEnvAPP w l c =
     (case loadFromEnv w ''APP'' c of
        (Some err, c') \<Rightarrow>
          (EvLoadFromEnv ''APP'' # logMsg l ErrorLevel [FErr err] ''load config from env vars failed'',
           Inl 1)
      | (None, c') \<Rightarrow> ([EvLoadFromEnv ''APP''], Inr c'))"

definition resolveConfig :: "'c world \<Rightarrow> logger \<Rightarrow> string \<Rightarrow> 'c \<Rightarrow> 'c block" where
  "resolveConfig w l name c =
     andThen (loadBases w l [''config'', name] c) (\<lambda>c1.
     andThen (loadExplicit w l c1) (\<lambda>c2.
     loadEnvAPP w l c2))"

section \<open>\<open>apprun.Run\<close> with name, version and writer, lines 31-118\<close>

record 'c Config =
  AppName :: string
  AppVer :: string
  LogLevel :: level
  LogWriter :: writer
  App :: 'c

text \<open>An application is what its method \<open>Run(ctx) error\<close> answers.\<close>

type_synonym app = "context \<Rightarrow> error option"

definition debugLevel :: "'c world \<Rightarrow> level" where
  "debugLevel w =
     (let dbg = getenv w ''APP_DEBUG'' in
      if dbg = ''true'' \<or> dbg = ''1'' then DebugLevel else InfoLevel)"

definition pickWriter :: "'c world \<Rightarrow> writer option \<Rightarrow> writer" where
  "pickWriter w lw =
     (case lw of None \<Rightarrow> (if isTerminal w then ConsoleWriter else Stderr) | Some x \<Rightarrow> x)"

definition orEnv :: "'c world \<Rightarrow> string \<Rightarrow> string \<Rightarrow> string" where
  "orEnv w v key = (if v = [] then getenv w key else v)"

definition bootLogger :: "'c world \<Rightarrow> string \<Rightarrow> string \<Rightarrow> writer option \<Rightarrow> logger" where
  "bootLogger w appName appVer lw =
     \<lparr>lg_level = debugLevel w,
      lg_ctx = [FStr ''app'' (orEnv w appName ''APP_NAME''),
                FStr ''app_v'' (orEnv w appVer ''APP_VERSION'')],
      lg_out = [pickWriter w lw]\<rparr>"

definition mkConfig :: "'c world \<Rightarrow> string \<Rightarrow> string \<Rightarrow> writer option \<Rightarrow> 'c \<Rightarrow> 'c Config" where
  "mkConfig w appName appVer lw c =
     \<lparr>AppName = orEnv w appName ''APP_NAME'',
      AppVer = orEnv w appVer ''APP_VERSION'',
      LogLevel = debugLevel w,
      LogWriter = pickWriter w lw,
      App = c\<rparr>"

text \<open>Lines 106-117, under the deferred \<open>ctxC()\<close> of line 87.\<close>

definition startApp_v1 :: "logger \<Rightarrow> ('c Config \<Rightarrow> error + app) \<Rightarrow> 'c Config \<Rightarrow> int block" where
  "startApp_v1 bl f conf =
     (case f conf of
        Inl err \<Rightarrow> (EvCallFactory # logMsg bl ErrorLevel [FErr err] ''app init failed'', Inl 1)
      | Inr a \<Rightarrow>
          (case a (WithCancel Background) of
             Some err \<Rightarrow>
               ([EvCallFactory, EvAppRun (WithCancel Background)] @
                  logMsg bl ErrorLevel [FErr err] ''app run failed'',
                Inl 1)
           | None \<Rightarrow> ([EvCallFactory, EvAppRun (WithCancel Background)], Inl 0)))"

definition Run_v1 ::
  "'c world \<Rightarrow> globals \<Rightarrow> ('c Config \<Rightarrow> error + app) \<Rightarrow> 'c \<Rightarrow> string \<Rightarrow> string \<Rightarrow> writer option
     \<Rightarrow> globals \<times> event list \<times> int" where
  "Run_v1 w g f appCfg appName appVer lw =
     (let bl = bootLogger w appName appVer lw in
      (g\<lparr>time_Local := UTC\<rparr>,
       exitCode
         (prepend [EvSetTimeLocal UTC]
            (andThen (resolveConfig w bl (orEnv w appName ''APP_NAME'') appCfg) (\<lambda>c.
               prepend [EvWithCancel, EvSignalNotify, EvGo SignalListener]
                 (deferred [EvCtxCancel]
                    (startApp_v1 bl f (mkConfig w appName appVer lw c))))))))"

text \<open>
  The goroutine of lines 92-96 (and 291-295, 391-395): it waits for one signal, reports
  it and cancels the context. Its body, from the moment a signal named \<open>s\<close> arrives:
\<close>

definition signalListener :: "logger \<Rightarrow> string \<Rightarrow> event list" where
  "signalListener l s = logMsg l InfoLevel [FStr ''signal'' s] ''signal received'' @ [EvCtxCancel]"

section \<open>\<open>runner.New\<close> and \<open>(*Runner).Run\<close>, lines 171-321\<close>

text \<open>The routes registered on \<open>SrvMux\<close>; \<open>None\<close> is the nil pointer.\<close>

record Runtime =
  rt_AppName :: string
  rt_AppVersion :: string
  rt_Logger :: logger
  rt_SrvMux :: "string list option"

record 'c Runner =
  r_cfg :: 'c
  r_fct :: "'c \<Rightarrow> Runtime \<Rightarrow> error + app"
  r_lw :: "writer list"
  r_srv :: "server option"
  r_rt :: Runtime

definition New_v2 ::
  "'c world \<Rightarrow> globals \<Rightarrow> ('c \<Rightarrow> Runtime \<Rightarrow> error + app) \<Rightarrow> 'c
     \<Rightarrow> globals \<times> event list \<times> 'c Runner" where
  "New_v2 w g fct c =
     (let g1 = g\<lparr>time_Local := UTC\<rparr>;
          logLevel = debugLevel w;
          logWriters = [if isTerminal w then ConsoleWriter else Stderr];
          g2 = (if g_appName g1 = [] then g1\<lparr>g_appName := getenv w ''APP_NAME''\<rparr> else g1);
          g3 = (if g_appVer g2 = [] then g2\<lparr>g_appVer := getenv w ''APP_VERSION''\<rparr> else g2);
          l = \<lparr>lg_level = logLevel,
               lg_ctx = [FStr ''app'' (g_appName g3), FStr ''app_v'' (g_appVer g3)],
               lg_out = logWriters\<rparr>
      in (g3, [EvSetTimeLocal UTC],
          \<lparr>r_cfg = c, r_fct = fct, r_lw = logWriters, r_srv = None,
           r_rt = \<lparr>rt_AppName = g_appName g3, rt_AppVersion = g_appVer g3,
                   rt_Logger = l, rt_SrvMux = None\<rparr>\<rparr>))"

definition WithLogWriter :: "'c Runner \<Rightarrow> writer \<Rightarrow> 'c Runner" where
  "WithLogWriter r wr = r\<lparr>r_lw := r_lw r @ [wr]\<rparr>"

text \<open>A panic is \<open>Inl\<close> of its message.\<close>

definition WithHTTPServer :: "'c Runner \<Rightarrow> server \<Rightarrow> string + 'c Runner" where
  "WithHTTPServer r s =
     (if r_srv r \<noteq> None then Inl ''http server is already set''
      else Inr (r\<lparr>r_rt := (r_rt r)\<lparr>rt_SrvMux := Some []\<rparr>,
                  r_srv := Some (s\<lparr>srv_Handler := RuntimeMux\<rparr>)\<rparr>))"

definition WithDefaultHTPServer :: "'c world \<Rightarrow> 'c Runner \<Rightarrow> string + 'c Runner" where
  "WithDefaultHTPServer w r =
     (let addr = getenv w ''APP_HTTP_SERVER_ADDR'';
          addr1 = (if addr = [] then '':9000'' else addr)
      in WithHTTPServer r \<lparr>srv_Addr = addr1, srv_Handler = DefaultServeMux\<rparr>)"

text \<open>
  \<open>WithMetricsHandler\<close> also hands name and version to the metrics package, which is
  another module and leaves no trace here.
\<close>

definition WithMetricsHandler :: "'c Runner \<Rightarrow> string + 'c Runner" where
  "WithMetricsHandler r =
     (if r_srv r = None then Inl ''http server is not set''
      else Inr (r\<lparr>r_rt := (r_rt r)\<lparr>rt_SrvMux :=
                   map_option (\<lambda>m. m @ [''/metrics'']) (rt_SrvMux (r_rt r))\<rparr>\<rparr>))"

text \<open>Lines 297-306: the goroutine is started only when a server is set.\<close>

definition serveStart :: "'c Runner \<Rightarrow> event list" where
  "serveStart r = (case r_srv r of None \<Rightarrow> [] | Some s \<Rightarrow> [EvGo (ServeTask (srv_Addr s))])"

text \<open>Lines 299-304: the body of that goroutine.\<close>

definition serveTask :: "'c world \<Rightarrow> logger \<Rightarrow> server \<Rightarrow> event list" where
  "serveTask w l s =
     logMsg l InfoLevel [FStr ''addr'' (srv_Addr s)] ''http server is starting'' @
     EvListenAndServe (srv_Addr s) #
     (case listenAndServe w s of
        Some err \<Rightarrow>
          (if errors_Is err ErrServerClosed then logMsg l InfoLevel [] ''http server closed''
           else logMsg l ErrorLevel [FErr err] ''http server serve failed'')
      | None \<Rightarrow> [])"

text \<open>Lines 313-318.\<close>

definition stopServer :: "'c world \<Rightarrow> 'c Runner \<Rightarrow> event list" where
  "stopServer w r =
     (case r_srv r of
        None \<Rightarrow> []
      | Some s \<Rightarrow>
          logMsg (rt_Logger (r_rt r)) InfoLevel [] ''http server is shutting down'' @
          EvShutdown (srv_Addr s) Background #
          (case shutdown w s of
             Some err \<Rightarrow>
               logMsg (rt_Logger (r_rt r)) ErrorLevel [FErr err] ''http server shutdown failed''
           | None \<Rightarrow> []))"

text \<open>Lines 279-320, entered with the resolved \<open>r.cfg\<close>.\<close>

definition startApp_v2 :: "'c world \<Rightarrow> 'c Runner \<Rightarrow> 'c \<Rightarrow> int block" where
  "startApp_v2 w r c =
     prepend [EvSignalNotify]
       (case r_fct r c (r_rt r) of
          Inl err \<Rightarrow>
            (EvCallFactory # logMsg (rt_Logger (r_rt r)) ErrorLevel [FErr err] ''app init failed'',
             Inl 1)
        | Inr a \<Rightarrow>
            prepend ([EvCallFactory, EvWithCancel, EvGo SignalListener] @ serveStart r)
              (deferred [EvCtxCancel]
                 (case a (WithCancel Background) of
                    Some err \<Rightarrow>
                      (EvAppRun (WithCancel Background) #
                         logMsg (rt_Logger (r_rt r)) ErrorLevel [FErr err] ''app run failed'',
                       Inl 1)
                  | None \<Rightarrow> (EvAppRun (WithCancel Background) # stopServer w r, Inl 0))))"

text \<open>
  The convention files are named after the package variable \<open>appName\<close> (line 252), not
  after \<open>r.rt.AppName\<close>. The loads write through \<open>&r.cfg\<close>; the runner is not used
  again after \<open>Run\<close>, so the updated field is not returned.
\<close>

definition Run_v2 :: "'c world \<Rightarrow> globals \<Rightarrow> 'c Runner \<Rightarrow> event list \<times> int" where
  "Run_v2 w g r =
     exitCode
       (andThen (resolveConfig w (rt_Logger (r_rt r)) (g_appName g) (r_cfg r))
          (startApp_v2 w r))"

section \<open>\<open>apprun.Run(f, cfg)\<close>, lines 356-401\<close>

text \<open>\<open>strings.ReplaceAll\<close>, with Go's treatment of an empty \<open>old\<close>.\<close>

function ReplaceAll :: "string \<Rightarrow> string \<Rightarrow> string \<Rightarrow> string" where
  "ReplaceAll s old new =
     (if old = [] then new @ concat (map (\<lambda>c. c # new) s)
      else if s = [] then []
      else if take (length old) s = old then new @ ReplaceAll (drop (length old) s) old new
      else hd s # ReplaceAll (tl s) old new)"
  by pat_completeness auto
termination
  by (relation "measure (\<lambda>(s, old, new). length s)") auto

declare ReplaceAll.simps [simp del]

text \<open>Here the application's method is \<open>Run(ctx, args) error\<close> and the factory cannot fail.\<close>

type_synonym app3 = "context \<Rightarrow> string list \<Rightarrow> error option"

datatype outcome = Exited int | Returned

definition logger_v3 :: "'c world \<Rightarrow> globals \<Rightarrow> logger" where
  "logger_v3 w g =
     \<lparr>lg_level = debugLevel w,
      lg_ctx = [FStr ''app'' (g_appName g), FStr ''app_v'' (g_appVer g)],
      lg_out = [if stdoutIsCharDevice w then ConsoleWriter else Stderr]\<rparr>"

text \<open>In this section \<open>Inl code\<close> is \<open>os.Exit(code)\<close>: the process ends there.\<close>

definition loadExplicit_v3 :: "'c world \<Rightarrow> logger \<Rightarrow> 'c \<Rightarrow> 'c block" where
  "loadExplicit_v3 w l c =
     (let cfgPath = getenv w ''APP_CONFIG_PATH'' in
      if cfgPath \<noteq> [] then
        (case loadFromPath w cfgPath c of
           (Some err, c') \<Rightarrow>
             (EvLoadFromPath cfgPath #
                logMsg l ErrorLevel [FErr err] ''load config from file failed'' @ [EvOsExit 1],
              Inl 1)
         | (None, c') \<Rightarrow>
             (EvLoadFromPath cfgPath #
                logMsg l DebugLevel [FStr ''path'' cfgPath] ''config loaded from file'',
              Inr c'))
      else ([], Inr c))"

definition appEnvCfgName :: "string \<Rightarrow> string" where
  "appEnvCfgName name = ReplaceAll (ReplaceAll name ''-'' ''_'') ''.'' ''_''"

definition loadEnv_v3 :: "'c world \<Rightarrow> logger \<Rightarrow> string \<Rightarrow> 'c \<Rightarrow> 'c block" where
  "loadEnv_v3 w l name c =
     (case loadFromEnv w (appEnvCfgName name) c of
        (Some err, c') \<Rightarrow>
          (EvLoadFromEnv (appEnvCfgName name) #
             logMsg l ErrorLevel [FErr err] ''load config from env failed'' @ [EvOsExit 1],
           Inl 1)
      | (None, c') \<Rightarrow> ([EvLoadFromEnv (appEnvCfgName name)], Inr c'))"

definition resolveConfig_v3 :: "'c world \<Rightarrow> logger \<Rightarrow> string \<Rightarrow> 'c \<Rightarrow> 'c block" where
  "resolveConfig_v3 w l name c = andThen (loadExplicit_v3 w l c) (loadEnv_v3 w l name)"

text \<open>Lines 385-400; \<open>os.Exit\<close> does not run the deferred \<open>ctxC()\<close>, a plain return does.\<close>

definition startApp_v3 :: "'c world \<Rightarrow> logger \<Rightarrow> ('c \<Rightarrow> logger \<Rightarrow> app3) \<Rightarrow> 'c \<Rightarrow> unit block" where
  "startApp_v3 w l f c =
     prepend [EvWithCancel, EvSignalNotify, EvGo SignalListener, EvCallFactory,
              EvAppRun (WithCancel Background)]
       (case f c l (WithCancel Background) (osArgs w) of
          Some err \<Rightarrow> (logMsg l ErrorLevel [FErr err] ''app run failed'' @ [EvOsExit 1], Inl 1)
        | None \<Rightarrow> ([EvCtxCancel], Inr ()))"

definition outcomeOf :: "unit block \<Rightarrow> event list \<times> outcome" where
  "outcomeOf m = (fst m, (case snd m of Inl c \<Rightarrow> Exited c | Inr u \<Rightarrow> Returned))"

definition Run_v3 ::
  "'c world \<Rightarrow> globals \<Rightarrow> ('c \<Rightarrow> logger \<Rightarrow> app3) \<Rightarrow> 'c \<Rightarrow> globals \<times> event list \<times> outcome" where
  "Run_v3 w g f c =
     (let l = logger_v3 w g in
      (g\<lparr>time_Local := UTC\<rparr>,
       outcomeOf
         (prepend [EvSetTimeLocal UTC]
            (andThen (resolveConfig_v3 w l (g_appName g) c) (startApp_v3 w l f)))))"


section \<open>Notions used to state the properties\<close>

text \<open>
  The two nested loops of lines 59-70 visit the paths \<open>base + ext\<close> in this order;
  \<open>loadPaths\<close> is the same loop body run over a plain list of paths.
\<close>

definition conventionPaths :: "string \<Rightarrow> string list" where
  "conventionPaths name = [''config.yaml'', ''config.json'', name @ ''.yaml'', name @ ''.json'']"

fun loadPaths :: "'c world \<Rightarrow> logger \<Rightarrow> string list \<Rightarrow> 'c \<Rightarrow> 'c block" where
  "loadPaths w l [] c = ([], Inr c)"
| "loadPaths w l (p # ps) c = andThen (loadStep w l p c) (loadPaths w l ps)"

text \<open>The events that configuration resolution can produce.\<close>

fun configEvent :: "event \<Rightarrow> bool" where
  "configEvent (EvLoadFromPath p) = True"
| "configEvent (EvLoadFromEnv p) = True"
| "configEvent (EvLog lv fs msg) = True"
| "configEvent e = False"

fun isEnvLoad :: "event \<Rightarrow> bool" where
  "isEnvLoad (EvLoadFromEnv p) = True"
| "isEnvLoad e = False"

fun isServeStart :: "event \<Rightarrow> bool" where
  "isServeStart (EvGo (ServeTask a)) = True"
| "isServeStart e = False"

fun isShutdown :: "event \<Rightarrow> bool" where
  "isShutdown (EvShutdown a c) = True"
| "isShutdown e = False"

fun isAppRun :: "event \<Rightarrow> bool" where
  "isAppRun (EvAppRun c) = True"
| "isAppRun e = False"

fun isErrorLog :: "event \<Rightarrow> bool" where
  "isErrorLog (EvLog lv fs msg) = (lv = ErrorLevel)"
| "isErrorLog e = False"

text \<open>
  Modelled from the spec: \<open>cfgloader.LoadFromPath\<close> and \<open>cfgloader.LoadFromEnv\<close> are
  functions of another module (github.com/ashep/go-cfgloader), absent from the sources.
  The specification treats them as "apply overrides from source X onto a configuration
  value", each source overwriting the fields it sets. Here a configuration value is a
  finite map from field names to values; a file is absent, unreadable or malformed
  (\<open>Inl\<close> of the error), or holds the fields it sets; the variables of the environment
  under a prefix are malformed or set some fields. How \<open>cfgloader\<close> matches variable
  names to fields and parses their values is not modelled.
\<close>

type_synonym fields = "string \<rightharpoonup> int"

definition overlayWorld ::
  "(string \<Rightarrow> string) \<Rightarrow> (string \<rightharpoonup> error + fields) \<Rightarrow> (string \<Rightarrow> error + fields)
     \<Rightarrow> error option \<Rightarrow> error option \<Rightarrow> fields world" where
  "overlayWorld env files ov serveErr stopErr =
     \<lparr>getenv = env,
      stdoutIsCharDevice = False,
      loadFromPath = (\<lambda>p c. case files p of
                               None \<Rightarrow> (Some (Wrap (''open '' @ p) ErrNotExist), c)
                             | Some (Inl e) \<Rightarrow> (Some e, c)
                             | Some (Inr m) \<Rightarrow> (None, c ++ m)),
      loadFromEnv = (\<lambda>pre c. case ov pre of Inl e \<Rightarrow> (Some e, c) | Inr m \<Rightarrow> (None, c ++ m)),
      listenAndServe = (\<lambda>s. serveErr),
      shutdown = (\<lambda>s. stopErr),
      osArgs = [''app'']\<rparr>"

text \<open>What a file contributes as a source: nothing when it is absent.\<close>

definition src :: "(string \<rightharpoonup> error + fields) \<Rightarrow> string \<Rightarrow> fields" where
  "src files p = (case files p of Some (Inr m) \<Rightarrow> m | _ \<Rightarrow> Map.empty)"

text \<open>Concrete surroundings for the instances below.\<close>

definition noEnv :: "string \<Rightarrow> string" where
  "noEnv k = []"

definition noOverlay :: "string \<Rightarrow> error + fields" where
  "noOverlay pre = Inr Map.empty"

definition g0 :: globals where
  "g0 = \<lparr>time_Local = SystemZone, g_appName = ''app'', g_appVer = ''unknown''\<rparr>"

definition okApp :: app where
  "okApp ctx = None"

definition failApp :: app where
  "failApp ctx = Some (ErrText ''boom'')"

definition demoServer :: server where
  "demoServer = \<lparr>srv_Addr = '':9000'', srv_Handler = RuntimeMux\<rparr>"

definition demoLogger :: logger where
  "demoLogger = \<lparr>lg_level = InfoLevel, lg_ctx = [], lg_out = [Stderr]\<rparr>"

definition demoRunner :: "(fields \<Rightarrow> Runtime \<Rightarrow> error + app) \<Rightarrow> fields Runner" where
  "demoRunner fct =
     \<lparr>r_cfg = Map.empty, r_fct = fct, r_lw = [Stderr], r_srv = Some demoServer,
      r_rt = \<lparr>rt_AppName = ''app'', rt_AppVersion = ''unknown'', rt_Logger = demoLogger,
              rt_SrvMux = Some []\<rparr>\<rparr>"


definition quietWorld :: "fields world" where
  "quietWorld = overlayWorld noEnv Map.empty noOverlay None None"

definition brokenJsonWorld :: "fields world" where
  "brokenJsonWorld =
     overlayWorld noEnv [''config.json'' \<mapsto> Inl (ErrText ''unexpected end of JSON input'')]
       noOverlay None None"

definition missingPathEnv :: "string \<Rightarrow> string" where
  "missingPathEnv k = (if k = ''APP_CONFIG_PATH'' then ''/etc/app/missing.yaml'' else [])"

definition missingPathWorld :: "fields world" where
  "missingPathWorld = overlayWorld missingPathEnv Map.empty noOverlay None None"

definition bindFailWorld :: "fields world" where
  "bindFailWorld =
     overlayWorld noEnv Map.empty noOverlay
       (Some (ErrText ''listen tcp :9000: bind: address already in use'')) None"

definition closedWorld :: "fields world" where
  "closedWorld = overlayWorld noEnv Map.empty noOverlay (Some ErrServerClosed) None"

text \<open>
  The scenario of the specification: \<open>config.yaml\<close> holds \<open>{timeout: 60}\<close> and the
  environment sets \<open>APP_TIMEOUT=90\<close>, which the overlay under the prefix \<open>APP\<close> reads
  as the field \<open>timeout\<close>. The factory \<open>timeoutSpy\<close> accepts the configuration only
  when it sees the timeout 90.
\<close>

definition scenarioWorld :: "fields world" where
  "scenarioWorld =
     overlayWorld noEnv [''config.yaml'' \<mapsto> Inr [''timeout'' \<mapsto> 60]]
       (\<lambda>pre. if pre = ''APP'' then Inr [''timeout'' \<mapsto> 90] else Inr Map.empty) None None"

definition timeoutSpy :: "fields Config \<Rightarrow> error + app" where
  "timeoutSpy conf =
     (if App conf ''timeout'' = Some 90 then Inr okApp else Inl (ErrText ''unexpected timeout''))"

text \<open>
  Surroundings in which the variables of the environment are named after the
  application \<open>my-app\<close>: the overlay under the prefix \<open>my_app\<close> sets the timeout 90,
  the overlay under any other prefix sets nothing; \<open>APP_CONFIG_PATH\<close> names
  \<open>config.yaml\<close>, which holds the timeout 60.
\<close>

definition configPathEnv :: "string \<Rightarrow> string" where
  "configPathEnv k = (if k = ''APP_CONFIG_PATH'' then ''config.yaml'' else [])"

definition prefixWorld :: "fields world" where
  "prefixWorld =
     overlayWorld configPathEnv [''config.yaml'' \<mapsto> Inr [''timeout'' \<mapsto> 60]]
       (\<lambda>pre. if pre = ''my_app'' then Inr [''timeout'' \<mapsto> 90] else Inr Map.empty) None None"

section \<open>Basic facts about sequencing and logging\<close>

lemma logMsg_Error [simp]: "logMsg l ErrorLevel fs msg = [EvLog ErrorLevel (lg_ctx l @ fs) msg]"
  by (cases "lg_level l") (simp_all add: logMsg_def)

lemma logMsg_Info:
  "lg_level l \<noteq> ErrorLevel \<Longrightarrow> logMsg l InfoLevel fs msg = [EvLog InfoLevel (lg_ctx l @ fs) msg]"
  by (cases "lg_level l") (simp_all add: logMsg_def)

lemma logMsg_configEvent: "e \<in> set (logMsg l lv fs msg) \<Longrightarrow> configEvent e"
  by (auto simp: logMsg_def split: if_splits)

lemma andThen_Inl [simp]: "andThen (t, Inl k) f = (t, Inl k)"
  by (simp add: andThen_def)

lemma andThen_Inr [simp]: "andThen (t, Inr x) f = prepend t (f x)"
  by (simp add: andThen_def)

lemma prepend_pair [simp]: "prepend t (u, r) = (t @ u, r)"
  by (simp add: prepend_def)

lemma fst_prepend [simp]: "fst (prepend t m) = t @ fst m"
  by (simp add: prepend_def)

lemma snd_prepend [simp]: "snd (prepend t m) = snd m"
  by (simp add: prepend_def)

lemma prepend_Nil [simp]: "prepend [] m = m"
  by (simp add: prepend_def)

lemma prepend_prepend [simp]: "prepend t (prepend u m) = prepend (t @ u) m"
  by (simp add: prepend_def)

lemma deferred_pair [simp]: "deferred d (t, r) = (t @ d, r)"
  by (simp add: deferred_def)

lemma exitCode_Inl [simp]: "exitCode (t, Inl k) = (t, k)"
  by (simp add: exitCode_def)

lemma exitCode_Inr [simp]: "exitCode (t, Inr k) = (t, k)"
  by (simp add: exitCode_def)

lemma outcomeOf_Inl [simp]: "outcomeOf (t, Inl k) = (t, Exited k)"
  by (simp add: outcomeOf_def)

lemma outcomeOf_Inr [simp]: "outcomeOf (t, Inr u) = (t, Returned)"
  by (simp add: outcomeOf_def)

lemma andThen_assoc: "andThen (andThen m f) h = andThen m (\<lambda>x. andThen (f x) h)"
  by (cases m; cases "snd m") (auto simp: andThen_def prepend_def split: sum.splits)

lemma andThen_unit [simp]: "andThen m (\<lambda>x. ([], Inr x)) = m"
  by (cases m; cases "snd m") (auto simp: andThen_def prepend_def)

lemma andThen_fails: "snd m = Inl k \<Longrightarrow> andThen m f = (fst m, Inl k)"
  by (simp add: andThen_def)

lemma andThen_passes: "snd m = Inr x \<Longrightarrow> andThen m f = prepend (fst m) (f x)"
  by (simp add: andThen_def)

text \<open>An invariant of the events and the only return code 1 pass through a sequence.\<close>

lemma andThen_keeps:
  assumes "\<forall>e\<in>set (fst m). P e" and "\<forall>k. snd m = Inl k \<longrightarrow> k = 1"
    and "\<And>x. snd m = Inr x \<Longrightarrow>
           (\<forall>e\<in>set (fst (f x)). P e) \<and> (\<forall>k. snd (f x) = Inl k \<longrightarrow> k = 1)"
  shows "(\<forall>e\<in>set (fst (andThen m f)). P e) \<and> (\<forall>k. snd (andThen m f) = Inl k \<longrightarrow> k = 1)"
proof (cases "snd m")
  case (Inl k)
  then show ?thesis using assms(1,2) by (simp add: andThen_fails)
next
  case (Inr x)
  then show ?thesis using assms(1) assms(3) [OF Inr] by (auto simp: andThen_passes)
qed

section \<open>The loops over the convention files\<close>

lemma loadPaths_append:
  "loadPaths w l (ps @ qs) c = andThen (loadPaths w l ps c) (loadPaths w l qs)"
proof (induction ps arbitrary: c)
  case Nil
  show ?case by simp
next
  case (Cons p ps)
  have "loadPaths w l (ps @ qs) = (\<lambda>x. andThen (loadPaths w l ps x) (loadPaths w l qs))"
    using Cons.IH by (intro ext)
  then show ?case by (simp add: andThen_assoc)
qed

lemma loadExts_flat: "loadExts w l base exts c = loadPaths w l (map ((@) base) exts) c"
proof (induction exts arbitrary: c)
  case Nil
  show ?case by simp
next
  case (Cons e es)
  have "loadExts w l base es = loadPaths w l (map ((@) base) es)"
    using Cons.IH by (intro ext)
  then show ?case by simp
qed

lemma loadBases_flat:
  "loadBases w l [''config'', name] c = loadPaths w l (conventionPaths name) c"
proof -
  have e: "\<And>b. loadExts w l b [''.yaml'', ''.json''] = loadPaths w l [b @ ''.yaml'', b @ ''.json'']"
    by (intro ext) (simp add: loadExts_flat)
  have "loadBases w l [''config'', name] c =
          andThen (loadPaths w l [''config.yaml'', ''config.json''] c)
            (loadPaths w l [name @ ''.yaml'', name @ ''.json''])"
    unfolding loadBases.simps e by (simp add: andThen_assoc)
  also have "\<dots> = loadPaths w l ([''config.yaml'', ''config.json''] @ [name @ ''.yaml'', name @ ''.json'']) c"
    by (rule loadPaths_append [symmetric])
  finally show ?thesis by (simp add: conventionPaths_def)
qed

lemma loadStep_keeps:
  "(\<forall>e\<in>set (fst (loadStep w l p c)). configEvent e \<and> \<not> isEnvLoad e) \<and>
   (\<forall>k. snd (loadStep w l p c) = Inl k \<longrightarrow> k = 1)"
  by (auto simp: loadStep_def logMsg_def split: prod.splits option.splits if_splits)

lemma loadPaths_keeps:
  "(\<forall>e\<in>set (fst (loadPaths w l ps c)). configEvent e \<and> \<not> isEnvLoad e) \<and>
   (\<forall>k. snd (loadPaths w l ps c) = Inl k \<longrightarrow> k = 1)"
proof (induction ps arbitrary: c)
  case Nil
  show ?case by simp
next
  case (Cons p ps)
  show ?case
    unfolding loadPaths.simps
  proof (rule andThen_keeps)
    show "\<forall>e\<in>set (fst (loadStep w l p c)). configEvent e \<and> \<not> isEnvLoad e"
      using loadStep_keeps [of w l p c] by (rule conjunct1)
    show "\<forall>k. snd (loadStep w l p c) = Inl k \<longrightarrow> k = 1"
      using loadStep_keeps [of w l p c] by (rule conjunct2)
    show "(\<forall>e\<in>set (fst (loadPaths w l ps x)). configEvent e \<and> \<not> isEnvLoad e) \<and>
          (\<forall>k. snd (loadPaths w l ps x) = Inl k \<longrightarrow> k = 1)" for x
      by (rule Cons.IH)
  qed
qed

lemma loadExplicit_keeps:
  "(\<forall>e\<in>set (fst (loadExplicit w l c)). configEvent e \<and> \<not> isEnvLoad e) \<and>
   (\<forall>k. snd (loadExplicit w l c) = Inl k \<longrightarrow> k = 1)"
  by (auto simp: loadExplicit_def Let_def logMsg_def split: prod.splits option.splits if_splits)

lemma loadEnvAPP_keeps:
  "(\<forall>e\<in>set (fst (loadEnvAPP w l c)). configEvent e) \<and>
   (\<forall>k. snd (loadEnvAPP w l c) = Inl k \<longrightarrow> k = 1)"
  by (auto simp: loadEnvAPP_def split: prod.splits option.splits)

text \<open>The file part of the resolution of lines 59-79.\<close>

lemma loadFiles_keeps:
  "(\<forall>e\<in>set (fst (andThen (loadBases w l [''config'', name] c) (loadExplicit w l))).
      configEvent e \<and> \<not> isEnvLoad e) \<and>
   (\<forall>k. snd (andThen (loadBases w l [''config'', name] c) (loadExplicit w l)) = Inl k \<longrightarrow> k = 1)"
  unfolding loadBases_flat
proof (rule andThen_keeps)
  show "\<forall>e\<in>set (fst (loadPaths w l (conventionPaths name) c)). configEvent e \<and> \<not> isEnvLoad e"
    using loadPaths_keeps [of w l "conventionPaths name" c] by (rule conjunct1)
  show "\<forall>k. snd (loadPaths w l (conventionPaths name) c) = Inl k \<longrightarrow> k = 1"
    using loadPaths_keeps [of w l "conventionPaths name" c] by (rule conjunct2)
  show "(\<forall>e\<in>set (fst (loadExplicit w l x)). configEvent e \<and> \<not> isEnvLoad e) \<and>
        (\<forall>k. snd (loadExplicit w l x) = Inl k \<longrightarrow> k = 1)" for x
    by (rule loadExplicit_keeps)
qed

lemma resolveConfig_split:
  "resolveConfig w l name c =
     andThen (andThen (loadBases w l [''config'', name] c) (loadExplicit w l)) (loadEnvAPP w l)"
  by (simp add: resolveConfig_def andThen_assoc)

lemma resolveConfig_keeps:
  "(\<forall>e\<in>set (fst (resolveConfig w l name c)). configEvent e) \<and>
   (\<forall>k. snd (resolveConfig w l name c) = Inl k \<longrightarrow> k = 1)"
  unfolding resolveConfig_split
proof (rule andThen_keeps)
  show "\<forall>e\<in>set (fst (andThen (loadBases w l [''config'', name] c) (loadExplicit w l))).
          configEvent e"
    using loadFiles_keeps [of w l name c] by blast
  show "\<forall>k. snd (andThen (loadBases w l [''config'', name] c) (loadExplicit w l)) = Inl k
          \<longrightarrow> k = 1"
    using loadFiles_keeps [of w l name c] by (rule conjunct2)
  show "(\<forall>e\<in>set (fst (loadEnvAPP w l x)). configEvent e) \<and>
        (\<forall>k. snd (loadEnvAPP w l x) = Inl k \<longrightarrow> k = 1)" for x
    by (rule loadEnvAPP_keeps)
qed

lemma resolveConfig_code: "snd (resolveConfig w l name c) = Inl k \<Longrightarrow> k = 1"
  using resolveConfig_keeps [of w l name c] by blast

lemma resolveConfig_events: "e \<in> set (fst (resolveConfig w l name c)) \<Longrightarrow> configEvent e"
  using resolveConfig_keeps [of w l name c] by blast

section \<open>The three entry points, by the outcome of configuration resolution\<close>

lemma fst_exitCode [simp]: "fst (exitCode m) = fst m"
  by (simp add: exitCode_def)

lemma fst_outcomeOf [simp]: "fst (outcomeOf m) = fst m"
  by (simp add: outcomeOf_def)

lemma Run_v1_unresolved:
  assumes "resolveConfig w (bootLogger w n v lw) (orEnv w n ''APP_NAME'') c0 = (t, Inl k)"
  shows "snd (Run_v1 w g f c0 n v lw) = (EvSetTimeLocal UTC # t, k)"
  using assms by (simp add: Run_v1_def Let_def)

lemma Run_v1_resolved:
  assumes "resolveConfig w (bootLogger w n v lw) (orEnv w n ''APP_NAME'') c0 = (t, Inr c)"
  shows "snd (Run_v1 w g f c0 n v lw) =
           exitCode (prepend (EvSetTimeLocal UTC # t @ [EvWithCancel, EvSignalNotify, EvGo SignalListener])
             (deferred [EvCtxCancel] (startApp_v1 (bootLogger w n v lw) f (mkConfig w n v lw c))))"
  using assms by (simp add: Run_v1_def Let_def)

lemma Run_v2_unresolved:
  assumes "resolveConfig w (rt_Logger (r_rt r)) (g_appName g) (r_cfg r) = (t, Inl k)"
  shows "Run_v2 w g r = (t, k)"
  using assms by (simp add: Run_v2_def)

lemma Run_v2_resolved:
  assumes "resolveConfig w (rt_Logger (r_rt r)) (g_appName g) (r_cfg r) = (t, Inr c)"
  shows "Run_v2 w g r = exitCode (prepend t (startApp_v2 w r c))"
  using assms by (simp add: Run_v2_def)

lemma Run_v3_unresolved:
  assumes "resolveConfig_v3 w (logger_v3 w g) (g_appName g) c0 = (t, Inl k)"
  shows "snd (Run_v3 w g f c0) = (EvSetTimeLocal UTC # t, Exited k)"
  using assms by (simp add: Run_v3_def Let_def)

lemma Run_v3_resolved:
  assumes "resolveConfig_v3 w (logger_v3 w g) (g_appName g) c0 = (t, Inr c)"
  shows "snd (Run_v3 w g f c0) =
           outcomeOf (prepend (EvSetTimeLocal UTC # t) (startApp_v3 w (logger_v3 w g) f c))"
  using assms by (simp add: Run_v3_def Let_def)

lemma startApp_v1_code:
  "snd (startApp_v1 bl f conf) =
     Inl (case f conf of Inl e \<Rightarrow> 1
          | Inr a \<Rightarrow> (case a (WithCancel Background) of Some e \<Rightarrow> 1 | None \<Rightarrow> 0))"
  by (simp add: startApp_v1_def split: sum.splits option.splits)

lemma startApp_v2_code:
  "snd (startApp_v2 w r c) =
     Inl (case r_fct r c (r_rt r) of Inl e \<Rightarrow> 1
          | Inr a \<Rightarrow> (case a (WithCancel Background) of Some e \<Rightarrow> 1 | None \<Rightarrow> 0))"
  by (simp add: startApp_v2_def deferred_def split: sum.splits option.splits)

lemma startApp_v3_code:
  "snd (startApp_v3 w l f c) =
     (case f c l (WithCancel Background) (osArgs w) of Some e \<Rightarrow> Inl 1 | None \<Rightarrow> Inr ())"
  by (simp add: startApp_v3_def split: option.splits)

lemma resolveConfig_v3_keeps:
  "(\<forall>e\<in>set (fst (resolveConfig_v3 w l name c)). e \<noteq> EvCallFactory \<and> \<not> isAppRun e) \<and>
   (\<forall>k. snd (resolveConfig_v3 w l name c) = Inl k \<longrightarrow> k = 1)"
  unfolding resolveConfig_v3_def
proof (rule andThen_keeps)
  show "\<forall>e\<in>set (fst (loadExplicit_v3 w l c)). e \<noteq> EvCallFactory \<and> \<not> isAppRun e"
    by (auto simp: loadExplicit_v3_def Let_def logMsg_def split: prod.splits option.splits if_splits)
  show "\<forall>k. snd (loadExplicit_v3 w l c) = Inl k \<longrightarrow> k = 1"
    by (auto simp: loadExplicit_v3_def Let_def split: prod.splits option.splits if_splits)
  show "(\<forall>e\<in>set (fst (loadEnv_v3 w l name x)). e \<noteq> EvCallFactory \<and> \<not> isAppRun e) \<and>
        (\<forall>k. snd (loadEnv_v3 w l name x) = Inl k \<longrightarrow> k = 1)" for x
    by (auto simp: loadEnv_v3_def split: prod.splits option.splits)
qed

lemma configEvent_not_start: "configEvent e \<Longrightarrow> e \<noteq> EvCallFactory \<and> \<not> isAppRun e \<and> \<not> isServeStart e \<and> \<not> isShutdown e"
  by (cases e) simp_all

lemma Run_v1_code:
  "snd (snd (Run_v1 w g f c0 n v lw)) =
     (case snd (resolveConfig w (bootLogger w n v lw) (orEnv w n ''APP_NAME'') c0) of
        Inl k \<Rightarrow> 1
      | Inr c \<Rightarrow>
          (case f (mkConfig w n v lw c) of Inl e \<Rightarrow> 1
           | Inr a \<Rightarrow> (case a (WithCancel Background) of Some e \<Rightarrow> 1 | None \<Rightarrow> 0)))"
proof (cases "resolveConfig w (bootLogger w n v lw) (orEnv w n ''APP_NAME'') c0")
  case (Pair t r)
  show ?thesis
  proof (cases r)
    case (Inl k)
    then have "k = 1" using resolveConfig_code [of w "bootLogger w n v lw" "orEnv w n ''APP_NAME''" c0 k] Pair
      by simp
    then show ?thesis using Pair Inl Run_v1_unresolved [of w n v lw c0 t k g f] by simp
  next
    case (Inr c)
    then show ?thesis using Pair Run_v1_resolved [of w n v lw c0 t c g f]
      by (simp add: exitCode_def deferred_def startApp_v1_code)
  qed
qed

lemma Run_v2_code:
  "snd (Run_v2 w g r) =
     (case snd (resolveConfig w (rt_Logger (r_rt r)) (g_appName g) (r_cfg r)) of
        Inl k \<Rightarrow> 1
      | Inr c \<Rightarrow>
          (case r_fct r c (r_rt r) of Inl e \<Rightarrow> 1
           | Inr a \<Rightarrow> (case a (WithCancel Background) of Some e \<Rightarrow> 1 | None \<Rightarrow> 0)))"
proof (cases "resolveConfig w (rt_Logger (r_rt r)) (g_appName g) (r_cfg r)")
  case (Pair t x)
  show ?thesis
  proof (cases x)
    case (Inl k)
    then have "k = 1" using resolveConfig_code [of w "rt_Logger (r_rt r)" "g_appName g" "r_cfg r" k] Pair
      by simp
    then show ?thesis using Pair Inl Run_v2_unresolved [of w r g t k] by simp
  next
    case (Inr c)
    then show ?thesis using Pair Run_v2_resolved [of w r g t c]
      by (simp add: exitCode_def startApp_v2_code)
  qed
qed

lemma Run_v3_code:
  "snd (snd (Run_v3 w g f c0)) =
     (case snd (resolveConfig_v3 w (logger_v3 w g) (g_appName g) c0) of
        Inl k \<Rightarrow> Exited 1
      | Inr c \<Rightarrow>
          (case f c (logger_v3 w g) (WithCancel Background) (osArgs w) of
             Some e \<Rightarrow> Exited 1 | None \<Rightarrow> Returned))"
proof (cases "resolveConfig_v3 w (logger_v3 w g) (g_appName g) c0")
  case (Pair t x)
  show ?thesis
  proof (cases x)
    case (Inl k)
    then have "k = 1" using resolveConfig_v3_keeps [of w "logger_v3 w g" "g_appName g" c0] Pair
      by simp
    then show ?thesis using Pair Inl Run_v3_unresolved [of w g c0 t k f] by simp
  next
    case (Inr c)
    then show ?thesis using Pair Run_v3_resolved [of w g c0 t c f]
      by (simp add: outcomeOf_def startApp_v3_code split: option.splits)
  qed
qed


lemma Run_v2_unresolved_events:
  assumes "snd (resolveConfig w (rt_Logger (r_rt r)) (g_appName g) (r_cfg r)) = Inl k"
    and "e \<in> set (fst (Run_v2 w g r))"
  shows "configEvent e"
proof -
  obtain t where t: "resolveConfig w (rt_Logger (r_rt r)) (g_appName g) (r_cfg r) = (t, Inl k)"
    using assms(1) by (cases "resolveConfig w (rt_Logger (r_rt r)) (g_appName g) (r_cfg r)") simp
  have "e \<in> set t"
    using assms(2) Run_v2_unresolved [OF t] by simp
  then show ?thesis
    using resolveConfig_events [of e w "rt_Logger (r_rt r)" "g_appName g" "r_cfg r"] t by auto
qed



lemma andThen_prepend: "andThen (prepend t m) f = prepend t (andThen m f)"
  by (cases m; cases "snd m") (auto simp: andThen_def prepend_def)

lemma loadStep_missing:
  "loadFromPath w p c = (Some err, c') \<Longrightarrow> errors_Is err ErrNotExist \<Longrightarrow>
     loadStep w l p c = ([EvLoadFromPath p], Inr c')"
  by (simp add: loadStep_def)

lemma loadStep_failed:
  "loadFromPath w p c = (Some err, c') \<Longrightarrow> \<not> errors_Is err ErrNotExist \<Longrightarrow>
     loadStep w l p c =
       ([EvLoadFromPath p,
         EvLog ErrorLevel (lg_ctx l @ [FErr err, FStr ''path'' p]) ''config file load failed''],
        Inl 1)"
  by (simp add: loadStep_def)

lemma resolveConfig_flat:
  "resolveConfig w l name c =
     andThen (loadPaths w l (conventionPaths name) c)
       (\<lambda>c1. andThen (loadExplicit w l c1) (loadEnvAPP w l))"
  by (simp only: resolveConfig_def loadBases_flat)

lemma resolveConfig_at_step:
  assumes "conventionPaths name = ps @ p # qs" and "loadPaths w l ps c0 = (t, Inr c1)"
  shows "resolveConfig w l name c0 =
           prepend t (andThen (loadStep w l p c1) (\<lambda>c. andThen (loadPaths w l qs c)
             (\<lambda>c1. andThen (loadExplicit w l c1) (loadEnvAPP w l))))"
proof -
  have "loadPaths w l (ps @ p # qs) c0 = prepend t (loadPaths w l (p # qs) c1)"
    using assms(2) by (simp add: loadPaths_append)
  then show ?thesis
    using assms(1) by (simp add: resolveConfig_flat andThen_prepend andThen_assoc)
qed

lemma snd_andThen:
  "snd (andThen m f) = (case snd m of Inl k \<Rightarrow> Inl k | Inr x \<Rightarrow> snd (f x))"
  by (cases "snd m") (simp_all add: andThen_fails andThen_passes)

section \<open>Evaluation in concrete surroundings\<close>

lemmas resolve_unfold =
  resolveConfig_def resolveConfig_v3_def loadStep_def loadExplicit_def loadExplicit_v3_def
  loadEnvAPP_def loadEnv_v3_def overlayWorld_def bootLogger_def logger_v3_def
  debugLevel_def orEnv_def pickWriter_def isTerminal_def noEnv_def noOverlay_def g0_def
  mkConfig_def okApp_def failApp_def Let_def

lemma quietWorld_resolve:
  "resolveConfig quietWorld l ''app'' Map.empty =
     ([EvLoadFromPath ''config.yaml'', EvLoadFromPath ''config.json'',
       EvLoadFromPath ''app.yaml'', EvLoadFromPath ''app.json'', EvLoadFromEnv ''APP''],
      Inr Map.empty)"
  by (simp add: quietWorld_def resolve_unfold)




section \<open>\<open>Runner.Run\<close> after a successful resolution\<close>

lemma Run_v2_factory_failed:
  assumes "resolveConfig w (rt_Logger (r_rt r)) (g_appName g) (r_cfg r) = (t, Inr c)"
    and "r_fct r c (r_rt r) = Inl err"
  shows "Run_v2 w g r =
           (t @ [EvSignalNotify, EvCallFactory,
                 EvLog ErrorLevel (lg_ctx (rt_Logger (r_rt r)) @ [FErr err]) ''app init failed''],
            1)"
  using assms by (simp add: Run_v2_resolved startApp_v2_def)

lemma Run_v2_run_failed:
  assumes "resolveConfig w (rt_Logger (r_rt r)) (g_appName g) (r_cfg r) = (t, Inr c)"
    and "r_fct r c (r_rt r) = Inr a" and "a (WithCancel Background) = Some err"
  shows "Run_v2 w g r =
           (t @ [EvSignalNotify, EvCallFactory, EvWithCancel, EvGo SignalListener] @ serveStart r @
              [EvAppRun (WithCancel Background),
               EvLog ErrorLevel (lg_ctx (rt_Logger (r_rt r)) @ [FErr err]) ''app run failed'',
               EvCtxCancel],
            1)"
  using assms by (simp add: Run_v2_resolved startApp_v2_def)

lemma Run_v2_run_ok:
  assumes "resolveConfig w (rt_Logger (r_rt r)) (g_appName g) (r_cfg r) = (t, Inr c)"
    and "r_fct r c (r_rt r) = Inr a" and "a (WithCancel Background) = None"
  shows "Run_v2 w g r =
           (t @ [EvSignalNotify, EvCallFactory, EvWithCancel, EvGo SignalListener] @ serveStart r @
              EvAppRun (WithCancel Background) # stopServer w r @ [EvCtxCancel],
            0)"
  using assms by (simp add: Run_v2_resolved startApp_v2_def)

text \<open>The main path never asks what \<open>ListenAndServe\<close> returned.\<close>

lemma loadStep_serve: "loadStep (w\<lparr>listenAndServe := ls\<rparr>) = loadStep w"
  by (intro ext) (simp add: loadStep_def)

lemma loadExts_serve: "loadExts (w\<lparr>listenAndServe := ls\<rparr>) l b es = loadExts w l b es"
proof (induction es)
  case Nil
  show ?case by (intro ext) simp
next
  case (Cons e es)
  show ?case by (intro ext) (simp add: loadStep_serve Cons.IH)
qed

lemma loadBases_serve: "loadBases (w\<lparr>listenAndServe := ls\<rparr>) l bs = loadBases w l bs"
proof (induction bs)
  case Nil
  show ?case by (intro ext) simp
next
  case (Cons b bs)
  show ?case by (intro ext) (simp only: loadBases.simps loadExts_serve Cons.IH)
qed

lemma loadExplicit_serve: "loadExplicit (w\<lparr>listenAndServe := ls\<rparr>) = loadExplicit w"
  by (intro ext) (simp add: loadExplicit_def Let_def)

lemma loadEnvAPP_serve: "loadEnvAPP (w\<lparr>listenAndServe := ls\<rparr>) = loadEnvAPP w"
  by (intro ext) (simp add: loadEnvAPP_def)

lemma resolveConfig_serve:
  "resolveConfig (w\<lparr>listenAndServe := ls\<rparr>) l name c = resolveConfig w l name c"
  by (simp only: resolveConfig_def loadBases_serve loadExplicit_serve loadEnvAPP_serve)

lemma stopServer_serve: "stopServer (w\<lparr>listenAndServe := ls\<rparr>) r = stopServer w r"
  by (simp add: stopServer_def split: option.splits)

lemma startApp_v2_serve: "startApp_v2 (w\<lparr>listenAndServe := ls\<rparr>) r c = startApp_v2 w r c"
  by (simp add: startApp_v2_def stopServer_serve split: sum.splits option.splits)

lemma Run_v2_serve: "Run_v2 (w\<lparr>listenAndServe := ls\<rparr>) g r = Run_v2 w g r"
proof -
  have "startApp_v2 (w\<lparr>listenAndServe := ls\<rparr>) r = startApp_v2 w r"
    by (intro ext) (rule startApp_v2_serve)
  then show ?thesis by (simp add: Run_v2_def resolveConfig_serve)
qed

lemma New_v2_logger_level:
  "lg_level (rt_Logger (r_rt (snd (snd (New_v2 w g fct c))))) \<noteq> ErrorLevel"
  by (simp add: New_v2_def Let_def debugLevel_def)

lemma logMsg_no_shutdown [simp]: "filter isShutdown (logMsg l lv fs msg) = []"
  by (simp add: logMsg_def)

lemma stopServer_once:
  "r_srv r = Some s \<Longrightarrow> filter isShutdown (stopServer w r) = [EvShutdown (srv_Addr s) Background]"
  by (simp add: stopServer_def split: option.splits)

lemma serveStart_no_shutdown [simp]: "filter isShutdown (serveStart r) = []"
  by (simp add: serveStart_def split: option.splits)

lemma resolveConfig_no_shutdown:
  "filter isShutdown (fst (resolveConfig w l name c)) = []"
proof -
  have "\<forall>e\<in>set (fst (resolveConfig w l name c)). \<not> isShutdown e"
    using resolveConfig_events [of _ w l name c] configEvent_not_start by blast
  then show ?thesis by (simp add: filter_empty_conv)
qed

text \<open>
  How often \<open>Shutdown\<close> is called once the application has been constructed and a
  server is set: once after a successful run, not at all after a failed one, where
  line 310 returns before line 313 is reached.
\<close>

lemma Run_v2_shutdown_count:
  assumes "resolveConfig w (rt_Logger (r_rt r)) (g_appName g) (r_cfg r) = (t, Inr c)"
    and "r_fct r c (r_rt r) = Inr a" and "r_srv r = Some s"
  shows "filter isShutdown (fst (Run_v2 w g r)) =
           (if a (WithCancel Background) = None then [EvShutdown (srv_Addr s) Background] else [])"
proof -
  have t: "filter isShutdown t = []"
    using resolveConfig_no_shutdown [of w "rt_Logger (r_rt r)" "g_appName g" "r_cfg r"] assms(1)
    by simp
  show ?thesis
  proof (cases "a (WithCancel Background)")
    case None
    then show ?thesis
      using Run_v2_run_ok [OF assms(1,2) None] t stopServer_once [OF assms(3), of w] by simp
  next
    case (Some err)
    then show ?thesis
      using Run_v2_run_failed [OF assms(1,2) Some] t by simp
  qed
qed

lemma quietWorld_demoRunner_resolve:
  "resolveConfig quietWorld (rt_Logger (r_rt (demoRunner fct))) (g_appName g0) (r_cfg (demoRunner fct)) =
     ([EvLoadFromPath ''config.yaml'', EvLoadFromPath ''config.json'',
       EvLoadFromPath ''app.yaml'', EvLoadFromPath ''app.json'', EvLoadFromEnv ''APP''],
      Inr Map.empty)"
  using quietWorld_resolve [of demoLogger] by (simp add: demoRunner_def g0_def)

section \<open>The process-wide time zone\<close>

text \<open>
  C10: every entry point of the runner (\<open>Run\<close> of lines 31 and 356, \<open>New\<close> of line
  171) sets the process-global \<open>time.Local\<close> to UTC as its first action: the first
  event of each is that assignment, and the variable holds UTC when the entry point is
  left, on every path and whatever it held before.
\<close>

theorem entry_points_set_time_Local_UTC:
  "time_Local (fst (Run_v1 w g f c n v lw)) = UTC \<and>
   take 1 (fst (snd (Run_v1 w g f c n v lw))) = [EvSetTimeLocal UTC] \<and>
   time_Local (fst (New_v2 w g fct c)) = UTC \<and>
   take 1 (fst (snd (New_v2 w g fct c))) = [EvSetTimeLocal UTC] \<and>
   time_Local (fst (Run_v3 w g f3 c)) = UTC \<and>
   take 1 (fst (snd (Run_v3 w g f3 c))) = [EvSetTimeLocal UTC]"
  by (simp add: Run_v1_def New_v2_def Run_v3_def Let_def)

section \<open>Exit codes\<close>



section \<open>The order of the configuration sources\<close>

lemma overlay_loadStep:
  assumes "\<forall>e. files p \<noteq> Some (Inl e)"
  shows "snd (loadStep (overlayWorld env files ov a b) l p c) = Inr (c ++ src files p)"
proof (cases "files p")
  case None
  then show ?thesis by (simp add: loadStep_def overlayWorld_def src_def)
next
  case (Some x)
  then obtain m where "files p = Some (Inr m)"
    using assms by (cases x) auto
  then show ?thesis by (simp add: loadStep_def overlayWorld_def src_def)
qed

lemma overlay_loadPaths:
  assumes "\<forall>p\<in>set ps. \<forall>e. files p \<noteq> Some (Inl e)"
  shows "snd (loadPaths (overlayWorld env files ov a b) l ps c) =
           Inr (foldl (\<lambda>c p. c ++ src files p) c ps)"
  using assms
proof (induction ps arbitrary: c)
  case Nil
  show ?case by simp
next
  case (Cons p ps)
  then show ?case by (simp add: snd_andThen overlay_loadStep)
qed

lemma overlay_loadExplicit:
  assumes "env ''APP_CONFIG_PATH'' = [] \<or> (\<exists>m. files (env ''APP_CONFIG_PATH'') = Some (Inr m))"
  shows "snd (loadExplicit (overlayWorld env files ov a b) l c) =
           Inr (c ++ (if env ''APP_CONFIG_PATH'' = [] then Map.empty
                      else src files (env ''APP_CONFIG_PATH'')))"
  using assms by (auto simp: loadExplicit_def overlayWorld_def src_def Let_def)

lemma overlay_loadEnvAPP:
  assumes "ov ''APP'' = Inr E"
  shows "snd (loadEnvAPP (overlayWorld env files ov a b) l c) = Inr (c ++ E)"
  using assms by (simp add: loadEnvAPP_def overlayWorld_def)

text \<open>
  C4: with the loaders of \<open>cfgloader\<close> read as field-level overwrites, with no
  malformed source, and with the explicitly named file present when
  \<open>APP_CONFIG_PATH\<close> is set, the resolved configuration is the base value overwritten
  in turn by \<open>config.yaml\<close>, \<open>config.json\<close>, \<open>{appName}.yaml\<close>, \<open>{appName}.json\<close>,
  the explicitly named file and the environment overlay, a later source overwriting the
  fields an earlier one set (\<open>++\<close> on maps); an absent convention file contributes
  nothing. This is the value the factory of \<open>Run\<close> receives. In particular the base
  \<open>{timeout: 30}\<close> with \<open>config.yaml\<close> \<open>{timeout: 60}\<close> and \<open>APP_TIMEOUT=90\<close>
  resolves to the timeout 90.
\<close>

theorem resolution_is_ordered_overwrite:
  assumes "\<forall>p\<in>set (conventionPaths name). \<forall>e. files p \<noteq> Some (Inl e)"
    and "env ''APP_CONFIG_PATH'' = [] \<or> (\<exists>m. files (env ''APP_CONFIG_PATH'') = Some (Inr m))"
    and "ov ''APP'' = Inr E"
    and "resolved = base ++ src files ''config.yaml'' ++ src files ''config.json'' ++
           src files (name @ ''.yaml'') ++ src files (name @ ''.json'') ++
           (if env ''APP_CONFIG_PATH'' = [] then Map.empty else src files (env ''APP_CONFIG_PATH'')) ++
           E"
  shows "snd (resolveConfig (overlayWorld env files ov a b) l name base) = Inr resolved \<and>
         (\<forall>g f n v lw. orEnv (overlayWorld env files ov a b) n ''APP_NAME'' = name \<longrightarrow>
            snd (snd (Run_v1 (overlayWorld env files ov a b) g f base n v lw)) =
              (case f (mkConfig (overlayWorld env files ov a b) n v lw resolved) of
                 Inl e \<Rightarrow> 1
               | Inr x \<Rightarrow> (case x (WithCancel Background) of Some e \<Rightarrow> 1 | None \<Rightarrow> 0)))"
proof -
  have r: "snd (resolveConfig (overlayWorld env files ov a b) l' name base) = Inr resolved" for l'
  proof -
    let ?W = "overlayWorld env files ov a b"
    let ?c4 = "foldl (\<lambda>c p. c ++ src files p) base (conventionPaths name)"
    let ?x = "if env ''APP_CONFIG_PATH'' = [] then Map.empty else src files (env ''APP_CONFIG_PATH'')"
    have p: "snd (loadPaths ?W l' (conventionPaths name) base) = Inr ?c4"
      using assms(1) by (rule overlay_loadPaths)
    have x: "snd (loadExplicit ?W l' ?c4) = Inr (?c4 ++ ?x)"
      using assms(2) by (rule overlay_loadExplicit)
    have e: "snd (loadEnvAPP ?W l' (?c4 ++ ?x)) = Inr (?c4 ++ ?x ++ E)"
      using assms(3) by (rule overlay_loadEnvAPP)
    have "snd (resolveConfig ?W l' name base) = Inr (?c4 ++ ?x ++ E)"
      by (simp only: resolveConfig_flat snd_andThen p x e sum.case)
    moreover have "?c4 = base ++ src files ''config.yaml'' ++ src files ''config.json'' ++
           src files (name @ ''.yaml'') ++ src files (name @ ''.json'')"
      by (simp add: conventionPaths_def)
    ultimately show ?thesis using assms(4) by simp
  qed
  show ?thesis
  proof (intro conjI allI impI)
    show "snd (resolveConfig (overlayWorld env files ov a b) l name base) = Inr resolved"
      by (rule r)
  next
    fix g :: globals and f :: "fields Config \<Rightarrow> error + app" and n v lw
    assume "orEnv (overlayWorld env files ov a b) n ''APP_NAME'' = name"
    then show "snd (snd (Run_v1 (overlayWorld env files ov a b) g f base n v lw)) =
              (case f (mkConfig (overlayWorld env files ov a b) n v lw resolved) of
                 Inl e \<Rightarrow> 1
               | Inr x \<Rightarrow> (case x (WithCancel Background) of Some e \<Rightarrow> 1 | None \<Rightarrow> 0))"
      by (simp add: Run_v1_code r)
  qed
qed

theorem resolution_is_ordered_overwrite_witness:
  "(\<exists>c. snd (resolveConfig scenarioWorld demoLogger ''app'' [''timeout'' \<mapsto> 30]) = Inr c \<and>
        c ''timeout'' = Some 90) \<and>
   snd (snd (Run_v1 scenarioWorld g0 timeoutSpy [''timeout'' \<mapsto> 30] ''app'' ''1'' None)) = 0"
proof -
  let ?files = "[''config.yaml'' \<mapsto> Inr [''timeout'' \<mapsto> 60]] :: string \<rightharpoonup> error + fields"
  let ?ov = "\<lambda>pre. if pre = ''APP'' then Inr [''timeout'' \<mapsto> 90] else Inr Map.empty
               :: error + fields"
  let ?R = "[''timeout'' \<mapsto> 30] ++ src ?files ''config.yaml'' ++ src ?files ''config.json'' ++
           src ?files (''app'' @ ''.yaml'') ++ src ?files (''app'' @ ''.json'') ++
           (if noEnv ''APP_CONFIG_PATH'' = [] then Map.empty else src ?files (noEnv ''APP_CONFIG_PATH'')) ++
           [''timeout'' \<mapsto> 90]"
  have h1: "\<forall>p\<in>set (conventionPaths ''app''). \<forall>e. ?files p \<noteq> Some (Inl e)"
    by (simp add: conventionPaths_def)
  have h2: "noEnv ''APP_CONFIG_PATH'' = [] \<or> (\<exists>m. ?files (noEnv ''APP_CONFIG_PATH'') = Some (Inr m))"
    by (simp add: noEnv_def)
  have h3: "?ov ''APP'' = Inr [''timeout'' \<mapsto> 90]"
    by simp
  have n: "orEnv scenarioWorld ''app'' ''APP_NAME'' = ''app''"
    by (simp add: orEnv_def)
  have t: "?R ''timeout'' = Some 90"
    by simp
  note th = resolution_is_ordered_overwrite [where env = noEnv and files = ?files and ov = ?ov
      and name = "''app''" and E = "[''timeout'' \<mapsto> 90]" and base = "[''timeout'' \<mapsto> 30]"
      and resolved = ?R and a = None and b = None and l = demoLogger,
      OF h1 h2 h3 refl, folded scenarioWorld_def]
  have r: "snd (resolveConfig scenarioWorld demoLogger ''app'' [''timeout'' \<mapsto> 30]) = Inr ?R"
    using th by (rule conjunct1)
  have ex: "\<exists>c. snd (resolveConfig scenarioWorld demoLogger ''app'' [''timeout'' \<mapsto> 30]) = Inr c \<and>
        c ''timeout'' = Some 90"
  proof (intro exI conjI)
    show "snd (resolveConfig scenarioWorld demoLogger ''app'' [''timeout'' \<mapsto> 30]) = Inr ?R"
      by (rule r)
    show "?R ''timeout'' = Some 90"
      by (rule t)
  qed
  have run: "snd (snd (Run_v1 scenarioWorld g0 timeoutSpy [''timeout'' \<mapsto> 30] ''app'' ''1'' None)) = 0"
    using th n t by (simp add: timeoutSpy_def mkConfig_def okApp_def)
  show ?thesis
    using ex run by (rule conjI)
qed

section \<open>Convention files that are absent or unreadable\<close>

text \<open>
  C5: take any step of the loop over the convention files \<open>config.yaml\<close>,
  \<open>config.json\<close>, \<open>{appName}.yaml\<close>, \<open>{appName}.json\<close> that is reached (the steps
  before it fell through) and whose load returns an error. If the error is
  \<open>os.ErrNotExist\<close>, nothing is logged and resolution goes on with the next source.
  Otherwise the error is logged together with the attempted path and that is the last
  thing \<open>Run\<close> (lines 31-118) and \<open>Runner.Run\<close> do: both return 1.
\<close>

theorem convention_file_step:
  assumes "conventionPaths name = ps @ p # qs"
    and "loadPaths (w :: 'c world) l ps c0 = (t, Inr c1)"
    and "loadFromPath w p c1 = (Some err, c2)"
  shows
    "(errors_Is err ErrNotExist \<longrightarrow>
        resolveConfig w l name c0 =
          prepend (t @ [EvLoadFromPath p])
            (andThen (loadPaths w l qs c2) (\<lambda>c. andThen (loadExplicit w l c) (loadEnvAPP w l)))) \<and>
     (\<not> errors_Is err ErrNotExist \<longrightarrow>
        (\<forall>g f n v lw. bootLogger w n v lw = l \<and> orEnv w n ''APP_NAME'' = name \<longrightarrow>
           snd (Run_v1 w g f c0 n v lw) =
             (EvSetTimeLocal UTC # t @
                [EvLoadFromPath p,
                 EvLog ErrorLevel (lg_ctx l @ [FErr err, FStr ''path'' p]) ''config file load failed''],
              1)) \<and>
        (\<forall>g r. rt_Logger (r_rt r) = l \<and> g_appName g = name \<and> r_cfg r = c0 \<longrightarrow>
           Run_v2 w g r =
             (t @ [EvLoadFromPath p,
                   EvLog ErrorLevel (lg_ctx l @ [FErr err, FStr ''path'' p]) ''config file load failed''],
              1)))"
proof (intro conjI impI)
  assume "errors_Is err ErrNotExist"
  then show "resolveConfig w l name c0 =
          prepend (t @ [EvLoadFromPath p])
            (andThen (loadPaths w l qs c2) (\<lambda>c. andThen (loadExplicit w l c) (loadEnvAPP w l)))"
    using resolveConfig_at_step [OF assms(1,2)] loadStep_missing [OF assms(3), of l] by simp
next
  assume "\<not> errors_Is err ErrNotExist"
  then have r: "resolveConfig w l name c0 =
      (t @ [EvLoadFromPath p,
            EvLog ErrorLevel (lg_ctx l @ [FErr err, FStr ''path'' p]) ''config file load failed''],
       Inl 1)"
    using resolveConfig_at_step [OF assms(1,2)] loadStep_failed [OF assms(3), of l] by simp
  show "\<forall>g f n v lw. bootLogger w n v lw = l \<and> orEnv w n ''APP_NAME'' = name \<longrightarrow>
           snd (Run_v1 w g f c0 n v lw) =
             (EvSetTimeLocal UTC # t @
                [EvLoadFromPath p,
                 EvLog ErrorLevel (lg_ctx l @ [FErr err, FStr ''path'' p]) ''config file load failed''],
              1)"
  proof (intro allI impI)
    fix g :: globals and f :: "'c Config \<Rightarrow> error + app" and n v lw
    assume "bootLogger w n v lw = l \<and> orEnv w n ''APP_NAME'' = name"
    then show "snd (Run_v1 w g f c0 n v lw) =
             (EvSetTimeLocal UTC # t @
                [EvLoadFromPath p,
                 EvLog ErrorLevel (lg_ctx l @ [FErr err, FStr ''path'' p]) ''config file load failed''],
              1)"
      using r Run_v1_unresolved [of w n v lw c0 _ 1 g f] by simp
  qed
  show "\<forall>g r. rt_Logger (r_rt r) = l \<and> g_appName g = name \<and> r_cfg r = c0 \<longrightarrow>
           Run_v2 w g r =
             (t @ [EvLoadFromPath p,
                   EvLog ErrorLevel (lg_ctx l @ [FErr err, FStr ''path'' p]) ''config file load failed''],
              1)"
  proof (intro allI impI)
    fix g :: globals and r' :: "'c Runner"
    assume "rt_Logger (r_rt r') = l \<and> g_appName g = name \<and> r_cfg r' = c0"
    then show "Run_v2 w g r' =
             (t @ [EvLoadFromPath p,
                   EvLog ErrorLevel (lg_ctx l @ [FErr err, FStr ''path'' p]) ''config file load failed''],
              1)"
      using r Run_v2_unresolved [of w r' g _ 1] by simp
  qed
qed

theorem convention_file_step_witness:
  "snd (Run_v1 brokenJsonWorld g0 (\<lambda>conf. Inr okApp) Map.empty ''app'' ''1'' None) =
     ([EvSetTimeLocal UTC, EvLoadFromPath ''config.yaml'', EvLoadFromPath ''config.json'',
       EvLog ErrorLevel
         [FStr ''app'' ''app'', FStr ''app_v'' ''1'',
          FErr (ErrText ''unexpected end of JSON input''), FStr ''path'' ''config.json'']
         ''config file load failed''],
      1) \<and>
   Run_v2 brokenJsonWorld g0 (demoRunner (\<lambda>c rt. Inr okApp)) =
     ([EvLoadFromPath ''config.yaml'', EvLoadFromPath ''config.json'',
       EvLog ErrorLevel
         [FErr (ErrText ''unexpected end of JSON input''), FStr ''path'' ''config.json'']
         ''config file load failed''],
      1) \<and>
   resolveConfig quietWorld demoLogger ''app'' Map.empty =
     ([EvLoadFromPath ''config.yaml'', EvLoadFromPath ''config.json'',
       EvLoadFromPath ''app.yaml'', EvLoadFromPath ''app.json'', EvLoadFromEnv ''APP''],
      Inr Map.empty)"
proof -
  have ps: "conventionPaths ''app'' = [''config.yaml''] @ ''config.json'' # [''app.yaml'', ''app.json'']"
    by (simp add: conventionPaths_def)
  have b1: "loadPaths brokenJsonWorld l [''config.yaml''] Map.empty =
              ([EvLoadFromPath ''config.yaml''], Inr Map.empty)" for l
    by (simp add: brokenJsonWorld_def loadStep_def overlayWorld_def)
  have b2: "loadFromPath brokenJsonWorld ''config.json'' Map.empty =
              (Some (ErrText ''unexpected end of JSON input''), Map.empty)"
    by (simp add: brokenJsonWorld_def overlayWorld_def)
  have q1: "loadPaths quietWorld l [''config.yaml''] Map.empty =
              ([EvLoadFromPath ''config.yaml''], Inr Map.empty)" for l
    by (simp add: quietWorld_def loadStep_def overlayWorld_def)
  have q2: "loadFromPath quietWorld ''config.json'' Map.empty =
              (Some (Wrap ''open config.json'' ErrNotExist), Map.empty)"
    by (simp add: quietWorld_def overlayWorld_def)
  have q3: "andThen (loadPaths quietWorld demoLogger [''app.yaml'', ''app.json''] Map.empty)
              (\<lambda>c. andThen (loadExplicit quietWorld demoLogger c) (loadEnvAPP quietWorld demoLogger)) =
            ([EvLoadFromPath ''app.yaml'', EvLoadFromPath ''app.json'', EvLoadFromEnv ''APP''],
             Inr Map.empty)"
    by (simp add: quietWorld_def resolve_unfold)
  have l1: "bootLogger brokenJsonWorld ''app'' ''1'' None =
              \<lparr>lg_level = InfoLevel, lg_ctx = [FStr ''app'' ''app'', FStr ''app_v'' ''1''],
               lg_out = [Stderr]\<rparr>"
    by (simp add: brokenJsonWorld_def resolve_unfold)
  have n1: "orEnv brokenJsonWorld ''app'' ''APP_NAME'' = ''app''"
    by (simp add: orEnv_def)
  note v1 = convention_file_step [OF ps b1 b2,
      of "\<lparr>lg_level = InfoLevel, lg_ctx = [FStr ''app'' ''app'', FStr ''app_v'' ''1''],
           lg_out = [Stderr]\<rparr>"]
  note v2 = convention_file_step [OF ps b1 b2, of demoLogger]
  note v3 = convention_file_step [OF ps q1 q2, of demoLogger]
  have "snd (Run_v1 brokenJsonWorld g0 (\<lambda>conf. Inr okApp) Map.empty ''app'' ''1'' None) =
     ([EvSetTimeLocal UTC, EvLoadFromPath ''config.yaml'', EvLoadFromPath ''config.json'',
       EvLog ErrorLevel
         [FStr ''app'' ''app'', FStr ''app_v'' ''1'',
          FErr (ErrText ''unexpected end of JSON input''), FStr ''path'' ''config.json'']
         ''config file load failed''],
      1)"
    using v1 l1 n1 by simp
  moreover have "Run_v2 brokenJsonWorld g0 (demoRunner (\<lambda>c rt. Inr okApp)) =
     ([EvLoadFromPath ''config.yaml'', EvLoadFromPath ''config.json'',
       EvLog ErrorLevel
         [FErr (ErrText ''unexpected end of JSON input''), FStr ''path'' ''config.json'']
         ''config file load failed''],
      1)"
    using v2 by (simp add: demoRunner_def demoLogger_def g0_def)
  moreover have "resolveConfig quietWorld demoLogger ''app'' Map.empty =
     ([EvLoadFromPath ''config.yaml'', EvLoadFromPath ''config.json'',
       EvLoadFromPath ''app.yaml'', EvLoadFromPath ''app.json'', EvLoadFromEnv ''APP''],
      Inr Map.empty)"
    using v3 q3 by simp
  ultimately show ?thesis by simp
qed

section \<open>The explicitly named configuration file\<close>

text \<open>
  C6: when \<open>APP_CONFIG_PATH\<close> is set to a non-empty path and loading that path reports
  \<open>os.ErrNotExist\<close>, configuration resolution fails: \<open>Run\<close> and \<open>Runner.Run\<close> return
  1 and the early \<open>Run\<close> ends the process with status 1. The explicitly named file
  has to exist, unlike the convention files.
\<close>

theorem explicit_path_must_exist:
  assumes "getenv w ''APP_CONFIG_PATH'' \<noteq> []"
    and "\<forall>c. \<exists>err. fst (loadFromPath w (getenv w ''APP_CONFIG_PATH'') c) = Some err \<and>
               errors_Is err ErrNotExist"
  shows "snd (resolveConfig w l name c0) = Inl 1 \<and>
         snd (resolveConfig_v3 w l name c0) = Inl 1 \<and>
         snd (snd (Run_v1 w g f c0 n v lw)) = 1 \<and>
         snd (Run_v2 w g r) = 1 \<and>
         snd (snd (Run_v3 w g f3 c0)) = Exited 1"
proof -
  have ex: "snd (loadExplicit w l' c) = Inl 1" for l' c
  proof -
    obtain err c' where "loadFromPath w (getenv w ''APP_CONFIG_PATH'') c = (Some err, c')"
      using assms(2) by (metis fst_conv surj_pair)
    then show ?thesis using assms(1) by (simp add: loadExplicit_def Let_def)
  qed
  have ex3: "snd (loadExplicit_v3 w l' c) = Inl 1" for l' c
  proof -
    obtain err c' where "loadFromPath w (getenv w ''APP_CONFIG_PATH'') c = (Some err, c')"
      using assms(2) by (metis fst_conv surj_pair)
    then show ?thesis using assms(1) by (simp add: loadExplicit_v3_def Let_def)
  qed
  have files: "\<exists>k. snd (andThen (loadBases w l' [''config'', name'] c) (loadExplicit w l')) = Inl k"
    for l' name' c
    by (cases "snd (loadBases w l' [''config'', name'] c)") (simp_all add: snd_andThen ex)
  have res: "snd (resolveConfig w l' name' c) = Inl 1" for l' name' c
  proof -
    obtain k where "snd (resolveConfig w l' name' c) = Inl k"
      using files [of l' name' c] by (auto simp: resolveConfig_split snd_andThen)
    then show ?thesis using resolveConfig_code [of w l' name' c k] by simp
  qed
  have res3: "snd (resolveConfig_v3 w l' name' c) = Inl 1" for l' name' c
    by (simp add: resolveConfig_v3_def snd_andThen ex3)
  show ?thesis
    by (simp add: res res3 Run_v1_code Run_v2_code Run_v3_code)
qed

theorem explicit_path_must_exist_witness:
  "getenv missingPathWorld ''APP_CONFIG_PATH'' = ''/etc/app/missing.yaml'' \<and>
   loadFromPath missingPathWorld ''/etc/app/missing.yaml'' Map.empty =
     (Some (Wrap ''open /etc/app/missing.yaml'' ErrNotExist), Map.empty) \<and>
   snd (snd (Run_v1 missingPathWorld g0 (\<lambda>conf. Inr okApp) Map.empty ''app'' ''1'' None)) = 1 \<and>
   snd (Run_v2 missingPathWorld g0 (demoRunner (\<lambda>c rt. Inr okApp))) = 1 \<and>
   snd (snd (Run_v3 missingPathWorld g0 (\<lambda>c l. (\<lambda>ctx args. None)) Map.empty)) = Exited 1"
proof -
  have p: "getenv missingPathWorld ''APP_CONFIG_PATH'' = ''/etc/app/missing.yaml''"
    by (simp add: missingPathWorld_def overlayWorld_def missingPathEnv_def)
  have m: "loadFromPath missingPathWorld ''/etc/app/missing.yaml'' c =
             (Some (Wrap ''open /etc/app/missing.yaml'' ErrNotExist), c)" for c
    by (simp add: missingPathWorld_def overlayWorld_def)
  have h1: "getenv missingPathWorld ''APP_CONFIG_PATH'' \<noteq> []"
    by (simp add: p)
  have h2: "\<forall>c. \<exists>err. fst (loadFromPath missingPathWorld (getenv missingPathWorld ''APP_CONFIG_PATH'') c) =
               Some err \<and> errors_Is err ErrNotExist"
    by (simp add: p m)
  show ?thesis
    using explicit_path_must_exist [OF h1 h2, of demoLogger "''app''" Map.empty g0
        "\<lambda>conf. Inr okApp" "''app''" "''1''" None "demoRunner (\<lambda>c rt. Inr okApp)"
        "\<lambda>c l. (\<lambda>ctx args. None)"]
    by (simp add: p m)
qed

section \<open>The environment overlay\<close>

lemma ReplaceAll_char:
  "ReplaceAll s [a] [b] = map (\<lambda>c. if c = a then b else c) s"
proof (induction s)
  case Nil
  show ?case by (simp add: ReplaceAll.simps [of "[]"])
next
  case (Cons x xs)
  then show ?case by (simp add: ReplaceAll.simps [of "x # xs"])
qed

lemma appEnvCfgName_map:
  "appEnvCfgName name =
     map (\<lambda>ch. if ch = CHR ''-'' \<or> ch = CHR ''.'' then CHR ''_'' else ch) name"
  by (simp add: appEnvCfgName_def ReplaceAll_char)

lemma loadEnvAPP_passed:
  "loadEnvAPP w l c2 = (u, Inr c) \<Longrightarrow>
     u = [EvLoadFromEnv ''APP''] \<and> loadFromEnv w ''APP'' c2 = (None, c)"
  by (auto simp: loadEnvAPP_def split: prod.splits option.splits)

lemma loadEnv_v3_passed:
  "loadEnv_v3 w l name c2 = (u, Inr c) \<Longrightarrow>
     u = [EvLoadFromEnv (appEnvCfgName name)] \<and> loadFromEnv w (appEnvCfgName name) c2 = (None, c)"
  by (auto simp: loadEnv_v3_def split: prod.splits option.splits)

lemma loadExplicit_v3_no_env: "e \<in> set (fst (loadExplicit_v3 w l c)) \<Longrightarrow> \<not> isEnvLoad e"
  by (auto simp: loadExplicit_v3_def Let_def logMsg_def split: prod.splits option.splits if_splits)

lemma resolveConfig_ends_with_env:
  assumes "resolveConfig w l name c0 = (t, Inr c)"
  shows "\<exists>t' c2. t = t' @ [EvLoadFromEnv ''APP''] \<and> (\<forall>e\<in>set t'. \<not> isEnvLoad e) \<and>
                 loadFromEnv w ''APP'' c2 = (None, c)"
proof -
  let ?F = "andThen (loadBases w l [''config'', name] c0) (loadExplicit w l)"
  have s: "andThen ?F (loadEnvAPP w l) = (t, Inr c)"
    using assms by (simp only: resolveConfig_split)
  then obtain c2 where c2: "snd ?F = Inr c2"
    by (cases "snd ?F") (simp_all add: andThen_fails)
  then have "prepend (fst ?F) (loadEnvAPP w l c2) = (t, Inr c)"
    using s by (simp only: andThen_passes)
  then have t: "t = fst ?F @ fst (loadEnvAPP w l c2)" and r: "snd (loadEnvAPP w l c2) = Inr c"
    by (simp_all add: prepend_def)
  have "loadEnvAPP w l c2 = (fst (loadEnvAPP w l c2), Inr c)"
    using r by (simp add: prod_eq_iff)
  then have "fst (loadEnvAPP w l c2) = [EvLoadFromEnv ''APP''] \<and> loadFromEnv w ''APP'' c2 = (None, c)"
    by (rule loadEnvAPP_passed)
  moreover have "\<forall>e\<in>set (fst ?F). \<not> isEnvLoad e"
    using loadFiles_keeps [of w l name c0] by blast
  ultimately show ?thesis using t by blast
qed

lemma resolveConfig_v3_ends_with_env:
  assumes "resolveConfig_v3 w l name c0 = (t, Inr c)"
  shows "\<exists>t' c2. t = t' @ [EvLoadFromEnv (appEnvCfgName name)] \<and> (\<forall>e\<in>set t'. \<not> isEnvLoad e) \<and>
                 loadFromEnv w (appEnvCfgName name) c2 = (None, c)"
proof -
  let ?F = "loadExplicit_v3 w l c0"
  have s: "andThen ?F (loadEnv_v3 w l name) = (t, Inr c)"
    using assms by (simp only: resolveConfig_v3_def)
  then obtain c2 where c2: "snd ?F = Inr c2"
    by (cases "snd ?F") (simp_all add: andThen_fails)
  then have "prepend (fst ?F) (loadEnv_v3 w l name c2) = (t, Inr c)"
    using s by (simp only: andThen_passes)
  then have t: "t = fst ?F @ fst (loadEnv_v3 w l name c2)"
    and r: "snd (loadEnv_v3 w l name c2) = Inr c"
    by (simp_all add: prepend_def)
  have "loadEnv_v3 w l name c2 = (fst (loadEnv_v3 w l name c2), Inr c)"
    using r by (simp add: prod_eq_iff)
  then have "fst (loadEnv_v3 w l name c2) = [EvLoadFromEnv (appEnvCfgName name)] \<and>
             loadFromEnv w (appEnvCfgName name) c2 = (None, c)"
    by (rule loadEnv_v3_passed)
  moreover have "\<forall>e\<in>set (fst ?F). \<not> isEnvLoad e"
    using loadExplicit_v3_no_env [of _ w l c0] by blast
  ultimately show ?thesis using t by blast
qed

text \<open>
  C2, as stated, is refuted by \<open>Run\<close> of lines 31-118: for the application \<open>my-app\<close>
  the overlay is read under the fixed prefix \<open>APP\<close> (line 81), not under \<open>my_app\<close>.
  With the timeout 60 in \<open>config.yaml\<close> and the timeout 90 in the variables under
  \<open>my_app\<close>, the factory does not see 90 and the run ends with "app init failed".
\<close>

theorem env_prefix_not_from_name:
  "appEnvCfgName ''my-app'' = ''my_app'' \<and>
   snd (Run_v1 prefixWorld g0 timeoutSpy [''timeout'' \<mapsto> 30] ''my-app'' ''1'' None) =
     ([EvSetTimeLocal UTC, EvLoadFromPath ''config.yaml'', EvLoadFromPath ''config.json'',
       EvLoadFromPath ''my-app.yaml'', EvLoadFromPath ''my-app.json'',
       EvLoadFromPath ''config.yaml'', EvLoadFromEnv ''APP'',
       EvWithCancel, EvSignalNotify, EvGo SignalListener, EvCallFactory,
       EvLog ErrorLevel [FStr ''app'' ''my-app'', FStr ''app_v'' ''1'',
                         FErr (ErrText ''unexpected timeout'')] ''app init failed'',
       EvCtxCancel],
      1)"
proof -
  have n: "appEnvCfgName ''my-app'' = ''my_app''"
    by (simp add: appEnvCfgName_map)
  have r: "resolveConfig prefixWorld (bootLogger prefixWorld ''my-app'' ''1'' None)
             (orEnv prefixWorld ''my-app'' ''APP_NAME'') [''timeout'' \<mapsto> 30] =
           ([EvLoadFromPath ''config.yaml'', EvLoadFromPath ''config.json'',
             EvLoadFromPath ''my-app.yaml'', EvLoadFromPath ''my-app.json'',
             EvLoadFromPath ''config.yaml'', EvLoadFromEnv ''APP''],
            Inr [''timeout'' \<mapsto> 60])"
    by (simp add: prefixWorld_def configPathEnv_def resolve_unfold logMsg_def)
  show ?thesis
    unfolding Run_v1_resolved [OF r]
    by (simp add: n startApp_v1_def timeoutSpy_def mkConfig_def bootLogger_def orEnv_def
        prefixWorld_def overlayWorld_def configPathEnv_def)
qed

text \<open>
  C2, amended: in every generation the environment overlay is the last source applied,
  after every file source, so whatever the overlay sets is what the resolved
  configuration holds, whatever the files set. The prefix of the overlay is the
  application name with \<open>-\<close> and \<open>.\<close> replaced by \<open>_\<close> in \<open>Run\<close> of lines 356-401;
  in \<open>Run\<close> of lines 31-118 and in \<open>Runner.Run\<close> it is the fixed prefix \<open>APP\<close>.
\<close>

theorem env_overlay_is_last:
  "(resolveConfig w l name c0 = (t, Inr c) \<longrightarrow>
      (\<exists>t'. t = t' @ [EvLoadFromEnv ''APP''] \<and> (\<forall>e\<in>set t'. \<not> isEnvLoad e)) \<and>
      ((\<forall>c'. get (snd (loadFromEnv w ''APP'' c')) = v) \<longrightarrow> get c = v)) \<and>
   (resolveConfig_v3 w l name c0 = (t3, Inr c3) \<longrightarrow>
      (\<exists>t'. t3 = t' @ [EvLoadFromEnv (appEnvCfgName name)] \<and> (\<forall>e\<in>set t'. \<not> isEnvLoad e)) \<and>
      ((\<forall>c'. get (snd (loadFromEnv w (appEnvCfgName name) c')) = v) \<longrightarrow> get c3 = v)) \<and>
   appEnvCfgName name =
     map (\<lambda>ch. if ch = CHR ''-'' \<or> ch = CHR ''.'' then CHR ''_'' else ch) name"
proof (intro conjI impI)
  assume a: "resolveConfig w l name c0 = (t, Inr c)"
  then obtain t' c2 where e: "t = t' @ [EvLoadFromEnv ''APP'']" "\<forall>e\<in>set t'. \<not> isEnvLoad e"
    "loadFromEnv w ''APP'' c2 = (None, c)"
    using resolveConfig_ends_with_env [of w l name c0 t c] by blast
  show "\<exists>t'. t = t' @ [EvLoadFromEnv ''APP''] \<and> (\<forall>e\<in>set t'. \<not> isEnvLoad e)"
    using e(1,2) by blast
  assume "\<forall>c'. get (snd (loadFromEnv w ''APP'' c')) = v"
  then have "get (snd (loadFromEnv w ''APP'' c2)) = v" by (rule spec)
  then show "get c = v" using e(3) by simp
next
  assume a: "resolveConfig_v3 w l name c0 = (t3, Inr c3)"
  then obtain t' c2 where e: "t3 = t' @ [EvLoadFromEnv (appEnvCfgName name)]"
    "\<forall>e\<in>set t'. \<not> isEnvLoad e" "loadFromEnv w (appEnvCfgName name) c2 = (None, c3)"
    using resolveConfig_v3_ends_with_env [of w l name c0 t3 c3] by blast
  show "\<exists>t'. t3 = t' @ [EvLoadFromEnv (appEnvCfgName name)] \<and> (\<forall>e\<in>set t'. \<not> isEnvLoad e)"
    using e(1,2) by blast
  assume "\<forall>c'. get (snd (loadFromEnv w (appEnvCfgName name) c')) = v"
  then have "get (snd (loadFromEnv w (appEnvCfgName name) c2)) = v" by (rule spec)
  then show "get c3 = v" using e(3) by simp
next
  show "appEnvCfgName name =
     map (\<lambda>ch. if ch = CHR ''-'' \<or> ch = CHR ''.'' then CHR ''_'' else ch) name"
    by (rule appEnvCfgName_map)
qed

theorem env_overlay_is_last_witness:
  "appEnvCfgName ''my-app'' = ''my_app'' \<and>
   (\<exists>c. resolveConfig_v3 prefixWorld demoLogger ''my-app'' [''timeout'' \<mapsto> 30] =
           ([EvLoadFromPath ''config.yaml'', EvLoadFromEnv ''my_app''], Inr c) \<and>
        c ''timeout'' = Some 90) \<and>
   (\<exists>c. resolveConfig scenarioWorld demoLogger ''app'' [''timeout'' \<mapsto> 30] =
           ([EvLoadFromPath ''config.yaml'', EvLoadFromPath ''config.json'',
             EvLoadFromPath ''app.yaml'', EvLoadFromPath ''app.json'', EvLoadFromEnv ''APP''],
            Inr c) \<and>
        c ''timeout'' = Some 90)"
proof -
  let ?get = "\<lambda>c :: fields. c ''timeout''"
  have n: "appEnvCfgName ''my-app'' = ''my_app''"
    by (simp add: appEnvCfgName_map)
  have r3: "resolveConfig_v3 prefixWorld demoLogger ''my-app'' [''timeout'' \<mapsto> 30] =
              ([EvLoadFromPath ''config.yaml'', EvLoadFromEnv ''my_app''],
               Inr ([''timeout'' \<mapsto> 30] ++ [''timeout'' \<mapsto> 60] ++ [''timeout'' \<mapsto> 90]))"
    by (simp add: n prefixWorld_def configPathEnv_def resolve_unfold logMsg_def demoLogger_def)
  have e3: "\<forall>c'. ?get (snd (loadFromEnv prefixWorld (appEnvCfgName ''my-app'') c')) = Some 90"
    by (simp add: n prefixWorld_def overlayWorld_def)
  have r1: "resolveConfig scenarioWorld demoLogger ''app'' [''timeout'' \<mapsto> 30] =
              ([EvLoadFromPath ''config.yaml'', EvLoadFromPath ''config.json'',
                EvLoadFromPath ''app.yaml'', EvLoadFromPath ''app.json'', EvLoadFromEnv ''APP''],
               Inr ([''timeout'' \<mapsto> 30] ++ [''timeout'' \<mapsto> 60] ++ [''timeout'' \<mapsto> 90]))"
    by (simp add: scenarioWorld_def resolve_unfold logMsg_def demoLogger_def)
  have e1: "\<forall>c'. ?get (snd (loadFromEnv scenarioWorld ''APP'' c')) = Some 90"
    by (simp add: scenarioWorld_def overlayWorld_def)
  note v3 = env_overlay_is_last [where w = prefixWorld and l = demoLogger and name = "''my-app''"
      and ?c0.0 = "[''timeout'' \<mapsto> 30]" and get = ?get and v = "Some 90"
      and ?t3.0 = "[EvLoadFromPath ''config.yaml'', EvLoadFromEnv ''my_app'']"
      and ?c3.0 = "[''timeout'' \<mapsto> 30] ++ [''timeout'' \<mapsto> 60] ++ [''timeout'' \<mapsto> 90]"]
  note v1 = env_overlay_is_last [where w = scenarioWorld and l = demoLogger and name = "''app''"
      and ?c0.0 = "[''timeout'' \<mapsto> 30]" and get = ?get and v = "Some 90"
      and t = "[EvLoadFromPath ''config.yaml'', EvLoadFromPath ''config.json'',
                EvLoadFromPath ''app.yaml'', EvLoadFromPath ''app.json'', EvLoadFromEnv ''APP'']"
      and c = "[''timeout'' \<mapsto> 30] ++ [''timeout'' \<mapsto> 60] ++ [''timeout'' \<mapsto> 90]"]
  have g3: "?get ([''timeout'' \<mapsto> 30] ++ [''timeout'' \<mapsto> 60] ++ [''timeout'' \<mapsto> 90]) = Some 90"
    using v3 r3 e3 by blast
  have g1: "?get ([''timeout'' \<mapsto> 30] ++ [''timeout'' \<mapsto> 60] ++ [''timeout'' \<mapsto> 90]) = Some 90"
    using v1 r1 e1 by blast
  have x3: "\<exists>c. resolveConfig_v3 prefixWorld demoLogger ''my-app'' [''timeout'' \<mapsto> 30] =
           ([EvLoadFromPath ''config.yaml'', EvLoadFromEnv ''my_app''], Inr c) \<and>
        c ''timeout'' = Some 90"
    using r3 g3 by (intro exI conjI)
  have x1: "\<exists>c. resolveConfig scenarioWorld demoLogger ''app'' [''timeout'' \<mapsto> 30] =
           ([EvLoadFromPath ''config.yaml'', EvLoadFromPath ''config.json'',
             EvLoadFromPath ''app.yaml'', EvLoadFromPath ''app.json'', EvLoadFromEnv ''APP''],
            Inr c) \<and>
        c ''timeout'' = Some 90"
    using r1 g1 by (intro exI conjI)
  show ?thesis
    using n x3 x1 by (intro conjI)
qed

section \<open>The auxiliary HTTP server\<close>

text \<open>
  C7: when the application factory returns an error, \<open>Runner.Run\<close> returns 1 and the
  goroutine that calls \<open>ListenAndServe\<close> is never started, whether or not a server is
  set: the run ends with the record "app init failed".
\<close>

theorem factory_error_never_starts_server:
  assumes "resolveConfig w (rt_Logger (r_rt r)) (g_appName g) (r_cfg r) = (t, Inr c)"
    and "r_fct r c (r_rt r) = Inl err"
  shows "snd (Run_v2 w g r) = 1 \<and>
         (\<forall>e\<in>set (fst (Run_v2 w g r)). \<not> isServeStart e) \<and>
         fst (Run_v2 w g r) =
           t @ [EvSignalNotify, EvCallFactory,
                EvLog ErrorLevel (lg_ctx (rt_Logger (r_rt r)) @ [FErr err]) ''app init failed'']"
proof -
  have "\<forall>e\<in>set t. \<not> isServeStart e"
    using resolveConfig_events [of _ w "rt_Logger (r_rt r)" "g_appName g" "r_cfg r"]
      configEvent_not_start assms(1) by fastforce
  then show ?thesis
    by (simp add: Run_v2_factory_failed [OF assms])
qed

theorem factory_error_never_starts_server_witness:
  "r_srv (demoRunner (\<lambda>c rt. Inl (ErrText ''no database''))) = Some demoServer \<and>
   Run_v2 quietWorld g0 (demoRunner (\<lambda>c rt. Inl (ErrText ''no database''))) =
     ([EvLoadFromPath ''config.yaml'', EvLoadFromPath ''config.json'',
       EvLoadFromPath ''app.yaml'', EvLoadFromPath ''app.json'', EvLoadFromEnv ''APP'',
       EvSignalNotify, EvCallFactory,
       EvLog ErrorLevel [FErr (ErrText ''no database'')] ''app init failed''],
      1)"
proof -
  have h1: "resolveConfig quietWorld
              (rt_Logger (r_rt (demoRunner (\<lambda>c rt. Inl (ErrText ''no database'')))))
              (g_appName g0) (r_cfg (demoRunner (\<lambda>c rt. Inl (ErrText ''no database'')))) =
            ([EvLoadFromPath ''config.yaml'', EvLoadFromPath ''config.json'',
              EvLoadFromPath ''app.yaml'', EvLoadFromPath ''app.json'', EvLoadFromEnv ''APP''],
             Inr Map.empty)"
    using quietWorld_resolve [of demoLogger] by (simp add: demoRunner_def g0_def)
  have h2: "r_fct (demoRunner (\<lambda>c rt. Inl (ErrText ''no database''))) Map.empty
              (r_rt (demoRunner (\<lambda>c rt. Inl (ErrText ''no database'')))) =
            Inl (ErrText ''no database'')"
    by (simp add: demoRunner_def)
  show ?thesis
    using factory_error_never_starts_server [OF h1 h2]
    by (simp add: prod_eq_iff demoRunner_def demoLogger_def)
qed

text \<open>
  C1: the claim is that a server that was started is shut down exactly once after the
  application's run method has returned, whatever it returned. Evaluated with a server
  set, every configuration file absent and a factory that succeeds: when the run method
  returns an error, \<open>Runner.Run\<close> starts the server, logs "app run failed" and returns
  1 without a call of \<open>Shutdown\<close>; when it returns nil, \<open>Shutdown\<close> is called once,
  after the run.
\<close>

theorem run_error_skips_shutdown:
  "Run_v2 quietWorld g0 (demoRunner (\<lambda>c rt. Inr failApp)) =
     ([EvLoadFromPath ''config.yaml'', EvLoadFromPath ''config.json'',
       EvLoadFromPath ''app.yaml'', EvLoadFromPath ''app.json'', EvLoadFromEnv ''APP'',
       EvSignalNotify, EvCallFactory, EvWithCancel, EvGo SignalListener,
       EvGo (ServeTask '':9000''), EvAppRun (WithCancel Background),
       EvLog ErrorLevel [FErr (ErrText ''boom'')] ''app run failed'', EvCtxCancel],
      1) \<and>
   Run_v2 quietWorld g0 (demoRunner (\<lambda>c rt. Inr okApp)) =
     ([EvLoadFromPath ''config.yaml'', EvLoadFromPath ''config.json'',
       EvLoadFromPath ''app.yaml'', EvLoadFromPath ''app.json'', EvLoadFromEnv ''APP'',
       EvSignalNotify, EvCallFactory, EvWithCancel, EvGo SignalListener,
       EvGo (ServeTask '':9000''), EvAppRun (WithCancel Background),
       EvLog InfoLevel [] ''http server is shutting down'',
       EvShutdown '':9000'' Background, EvCtxCancel],
      0)"
proof -
  have f: "r_fct (demoRunner (\<lambda>c rt. Inr failApp)) Map.empty
             (r_rt (demoRunner (\<lambda>c rt. Inr failApp))) = Inr failApp"
    and k: "r_fct (demoRunner (\<lambda>c rt. Inr okApp)) Map.empty
             (r_rt (demoRunner (\<lambda>c rt. Inr okApp))) = Inr okApp"
    by (simp_all add: demoRunner_def)
  have "failApp (WithCancel Background) = Some (ErrText ''boom'')"
    by (simp add: failApp_def)
  note bad = Run_v2_run_failed [OF quietWorld_demoRunner_resolve f this]
  have "okApp (WithCancel Background) = None"
    by (simp add: okApp_def)
  note good = Run_v2_run_ok [OF quietWorld_demoRunner_resolve k this]
  show ?thesis
    unfolding bad good
    by (simp add: serveStart_def stopServer_def demoRunner_def demoServer_def demoLogger_def
        logMsg_def quietWorld_def overlayWorld_def)
qed

text \<open>
  C8: what \<open>ListenAndServe\<close> returns never reaches the main path: \<open>Runner.Run\<close> yields
  the same events and the same exit code whatever the listener does, and with a server
  set and an application constructed the run method is invoked right after the
  goroutine of the listener has been started. In that goroutine a bind or serve
  failure is written at error level, while \<open>http.ErrServerClosed\<close> produces no record
  at error level and, for a logger that lets informational records through, the record
  "http server closed" at informational level. The logger that \<open>New\<close> builds is such
  a logger.
\<close>

theorem listener_failure_is_not_fatal:
  "Run_v2 (w\<lparr>listenAndServe := ls\<rparr>) g r = Run_v2 w g r \<and>
   (\<forall>t c a s'. resolveConfig w (rt_Logger (r_rt r)) (g_appName g) (r_cfg r) = (t, Inr c) \<and>
        r_fct r c (r_rt r) = Inr a \<and> r_srv r = Some s' \<longrightarrow>
        (\<exists>t'. fst (Run_v2 w g r) =
                t @ [EvSignalNotify, EvCallFactory, EvWithCancel, EvGo SignalListener,
                     EvGo (ServeTask (srv_Addr s')), EvAppRun (WithCancel Background)] @ t')) \<and>
   (\<forall>err. listenAndServe w s = Some err \<and> \<not> errors_Is err ErrServerClosed \<longrightarrow>
        serveTask w l s =
          logMsg l InfoLevel [FStr ''addr'' (srv_Addr s)] ''http server is starting'' @
          [EvListenAndServe (srv_Addr s),
           EvLog ErrorLevel (lg_ctx l @ [FErr err]) ''http server serve failed'']) \<and>
   (\<forall>err. listenAndServe w s = Some err \<and> errors_Is err ErrServerClosed \<longrightarrow>
        (\<forall>e\<in>set (serveTask w l s). \<not> isErrorLog e) \<and>
        (lg_level l \<noteq> ErrorLevel \<longrightarrow>
           serveTask w l s =
             [EvLog InfoLevel (lg_ctx l @ [FStr ''addr'' (srv_Addr s)]) ''http server is starting'',
              EvListenAndServe (srv_Addr s),
              EvLog InfoLevel (lg_ctx l) ''http server closed''])) \<and>
   lg_level (rt_Logger (r_rt (snd (snd (New_v2 w g fct c0))))) \<noteq> ErrorLevel"
proof (intro conjI allI impI)
  show "Run_v2 (w\<lparr>listenAndServe := ls\<rparr>) g r = Run_v2 w g r"
    by (rule Run_v2_serve)
next
  fix t c a s'
  assume h: "resolveConfig w (rt_Logger (r_rt r)) (g_appName g) (r_cfg r) = (t, Inr c) \<and>
        r_fct r c (r_rt r) = Inr a \<and> r_srv r = Some s'"
  then have res: "resolveConfig w (rt_Logger (r_rt r)) (g_appName g) (r_cfg r) = (t, Inr c)"
    and fa: "r_fct r c (r_rt r) = Inr a" and sv: "serveStart r = [EvGo (ServeTask (srv_Addr s'))]"
    by (simp_all add: serveStart_def)
  show "\<exists>t'. fst (Run_v2 w g r) =
                t @ [EvSignalNotify, EvCallFactory, EvWithCancel, EvGo SignalListener,
                     EvGo (ServeTask (srv_Addr s')), EvAppRun (WithCancel Background)] @ t'"
  proof (cases "a (WithCancel Background)")
    case None
    show ?thesis unfolding Run_v2_run_ok [OF res fa None] sv by simp
  next
    case (Some err)
    show ?thesis unfolding Run_v2_run_failed [OF res fa Some] sv by simp
  qed
next
  fix err
  assume "listenAndServe w s = Some err \<and> \<not> errors_Is err ErrServerClosed"
  then show "serveTask w l s =
          logMsg l InfoLevel [FStr ''addr'' (srv_Addr s)] ''http server is starting'' @
          [EvListenAndServe (srv_Addr s),
           EvLog ErrorLevel (lg_ctx l @ [FErr err]) ''http server serve failed'']"
    by (simp add: serveTask_def)
next
  fix err
  assume "listenAndServe w s = Some err \<and> errors_Is err ErrServerClosed"
  then show "\<forall>e\<in>set (serveTask w l s). \<not> isErrorLog e"
    by (auto simp: serveTask_def logMsg_def split: if_splits)
next
  fix err
  assume "listenAndServe w s = Some err \<and> errors_Is err ErrServerClosed"
    and "lg_level l \<noteq> ErrorLevel"
  then show "serveTask w l s =
             [EvLog InfoLevel (lg_ctx l @ [FStr ''addr'' (srv_Addr s)]) ''http server is starting'',
              EvListenAndServe (srv_Addr s),
              EvLog InfoLevel (lg_ctx l) ''http server closed'']"
    by (simp add: serveTask_def logMsg_Info)
next
  show "lg_level (rt_Logger (r_rt (snd (snd (New_v2 w g fct c0))))) \<noteq> ErrorLevel"
    by (rule New_v2_logger_level)
qed

theorem listener_failure_is_not_fatal_witness:
  "Run_v2 bindFailWorld g0 (demoRunner (\<lambda>c rt. Inr okApp)) =
     Run_v2 quietWorld g0 (demoRunner (\<lambda>c rt. Inr okApp)) \<and>
   snd (Run_v2 bindFailWorld g0 (demoRunner (\<lambda>c rt. Inr okApp))) = 0 \<and>
   EvAppRun (WithCancel Background) \<in> set (fst (Run_v2 bindFailWorld g0 (demoRunner (\<lambda>c rt. Inr okApp)))) \<and>
   serveTask bindFailWorld demoLogger demoServer =
     [EvLog InfoLevel [FStr ''addr'' '':9000''] ''http server is starting'',
      EvListenAndServe '':9000'',
      EvLog ErrorLevel [FErr (ErrText ''listen tcp :9000: bind: address already in use'')]
        ''http server serve failed''] \<and>
   serveTask closedWorld demoLogger demoServer =
     [EvLog InfoLevel [FStr ''addr'' '':9000''] ''http server is starting'',
      EvListenAndServe '':9000'',
      EvLog InfoLevel [] ''http server closed'']"
proof -
  have w: "bindFailWorld =
      quietWorld\<lparr>listenAndServe :=
        \<lambda>s. Some (ErrText ''listen tcp :9000: bind: address already in use'')\<rparr>"
    by (simp add: bindFailWorld_def quietWorld_def overlayWorld_def)
  have k: "r_fct (demoRunner (\<lambda>c rt. Inr okApp)) Map.empty
             (r_rt (demoRunner (\<lambda>c rt. Inr okApp))) = Inr okApp"
    and sv: "r_srv (demoRunner (\<lambda>c rt. Inr okApp)) = Some demoServer"
    by (simp_all add: demoRunner_def)
  have ok: "okApp (WithCancel Background) = None"
    by (simp add: okApp_def)
  note q = listener_failure_is_not_fatal [where w = quietWorld
      and ls = "\<lambda>s. Some (ErrText ''listen tcp :9000: bind: address already in use'')"
      and g = g0 and r = "demoRunner (\<lambda>c rt. Inr okApp)" and s = demoServer and l = demoLogger
      and fct = "\<lambda>c rt. Inr okApp" and ?c0.0 = Map.empty]
  note b = listener_failure_is_not_fatal [where w = bindFailWorld and ls = "\<lambda>s. None"
      and g = g0 and r = "demoRunner (\<lambda>c rt. Inr okApp)" and s = demoServer and l = demoLogger
      and fct = "\<lambda>c rt. Inr okApp" and ?c0.0 = Map.empty]
  note c = listener_failure_is_not_fatal [where w = closedWorld and ls = "\<lambda>s. None"
      and g = g0 and r = "demoRunner (\<lambda>c rt. Inr okApp)" and s = demoServer and l = demoLogger
      and fct = "\<lambda>c rt. Inr okApp" and ?c0.0 = Map.empty]
  have same: "Run_v2 bindFailWorld g0 (demoRunner (\<lambda>c rt. Inr okApp)) =
     Run_v2 quietWorld g0 (demoRunner (\<lambda>c rt. Inr okApp))"
    using q unfolding w by (rule conjunct1)
  have run: "Run_v2 quietWorld g0 (demoRunner (\<lambda>c rt. Inr okApp)) =
     ([EvLoadFromPath ''config.yaml'', EvLoadFromPath ''config.json'',
       EvLoadFromPath ''app.yaml'', EvLoadFromPath ''app.json'', EvLoadFromEnv ''APP'',
       EvSignalNotify, EvCallFactory, EvWithCancel, EvGo SignalListener,
       EvGo (ServeTask '':9000''), EvAppRun (WithCancel Background),
       EvLog InfoLevel [] ''http server is shutting down'',
       EvShutdown '':9000'' Background, EvCtxCancel],
      0)"
    unfolding Run_v2_run_ok [OF quietWorld_demoRunner_resolve k ok]
    by (simp add: serveStart_def stopServer_def demoRunner_def demoServer_def demoLogger_def
        logMsg_def quietWorld_def overlayWorld_def)
  have t1: "serveTask bindFailWorld demoLogger demoServer =
     [EvLog InfoLevel [FStr ''addr'' '':9000''] ''http server is starting'',
      EvListenAndServe '':9000'',
      EvLog ErrorLevel [FErr (ErrText ''listen tcp :9000: bind: address already in use'')]
        ''http server serve failed'']"
    using b by (simp add: bindFailWorld_def overlayWorld_def demoLogger_def demoServer_def logMsg_def)
  have t2: "serveTask closedWorld demoLogger demoServer =
     [EvLog InfoLevel [FStr ''addr'' '':9000''] ''http server is starting'',
      EvListenAndServe '':9000'',
      EvLog InfoLevel [] ''http server closed'']"
    using c by (simp add: closedWorld_def overlayWorld_def demoLogger_def demoServer_def)
  show ?thesis
    unfolding t1 t2 same run by simp
qed

end
